theory Spec2Isabelle
  imports Main "HOL-Library.Sublist"
begin

section \<open>The narrative\<close>

text \<open>
  Python strings are modelled as \<^typ>\<open>string\<close>, one \<^typ>\<open>char\<close> per code point below 256
  (the Latin-1 repertoire). The narrative is the validated \<open>RepositoryAnalysis\<close> model with
  its \<open>GlossaryItem\<close> entries.
\<close>

record glossary_item =
  "term" :: string
  "definition" :: string

record narrative =
  project_summary :: string
  how_it_helps_people :: string
  main_features :: "string list"
  how_it_works :: "string list"
  tech_stack :: "string list"
  getting_started :: "string list"
  next_steps :: "string list"
  glossary :: "glossary_item list"

definition empty_narrative :: narrative where
  "empty_narrative =
     \<lparr>project_summary = [], how_it_helps_people = [], main_features = [], how_it_works = [],
      tech_stack = [], getting_started = [], next_steps = [], glossary = []\<rparr>"

text \<open>\<open>str(n)\<close> for a natural number.\<close>

definition digit_char :: "nat \<Rightarrow> char" where
  "digit_char d = ''0123456789'' ! d"

fun str_nat :: "nat \<Rightarrow> string" where
  "str_nat n = (if n < 10 then [digit_char n] else str_nat (n div 10) @ [digit_char (n mod 10)])"

declare str_nat.simps [simp del]


section \<open>Python string operations\<close>

text \<open>\<open>str.isspace\<close> on the code points below 256: what \<open>str.strip()\<close> removes.\<close>

definition is_space :: "char \<Rightarrow> bool" where
  "is_space c \<longleftrightarrow>
     c \<in> set [CHR 0x09, CHR 0x0A, CHR 0x0B, CHR 0x0C, CHR 0x0D, CHR 0x1C, CHR 0x1D, CHR 0x1E,
              CHR 0x1F, CHR 0x20, CHR 0x85, CHR 0xA0]"

definition lstrip :: "string \<Rightarrow> string" where
  "lstrip s = dropWhile is_space s"

definition rstrip :: "string \<Rightarrow> string" where
  "rstrip s = rev (dropWhile is_space (rev s))"

definition strip :: "string \<Rightarrow> string" where
  "strip s = rstrip (lstrip s)"

text \<open>\<open>s.rstrip(chars)\<close>.\<close>

definition rstrip_chars :: "string \<Rightarrow> string \<Rightarrow> string" where
  "rstrip_chars chars s = rev (dropWhile (\<lambda>c. c \<in> set chars) (rev s))"

text \<open>\<open>s.split(sep)\<close> for a non-empty separator: the occurrences of \<open>sep\<close> are found from the
  left and do not overlap; \<open>acc\<close> holds the current piece in reverse. (Python raises
  ValueError for an empty separator; every separator of the program is a non-empty
  literal, and with an empty one this function never splits.)\<close>

function split_sep :: "string \<Rightarrow> string \<Rightarrow> string \<Rightarrow> string list" where
  "split_sep sep acc s =
     (if s = [] then [rev acc]
      else if sep \<noteq> [] \<and> prefix sep s then rev acc # split_sep sep [] (drop (length sep) s)
      else split_sep sep (hd s # acc) (tl s))"
  by pat_completeness auto
termination
  by (relation "measure (\<lambda>(sep, acc, s). length s)") auto

declare split_sep.simps [simp del]

definition split_str :: "string \<Rightarrow> string \<Rightarrow> string list" where
  "split_str sep s = split_sep sep [] s"

text \<open>\<open>s.split(sep, 1)\<close>: at most one split, at the first occurrence.\<close>

fun split_once :: "string \<Rightarrow> string \<Rightarrow> string \<Rightarrow> string list" where
  "split_once sep acc [] = [rev acc]"
| "split_once sep acc (c # cs) =
     (if sep \<noteq> [] \<and> prefix sep (c # cs) then [rev acc, drop (length sep) (c # cs)]
      else split_once sep (c # acc) cs)"

text \<open>\<open>str.splitlines()\<close>: the line boundaries among the code points below 256 are LF, CR,
  CR LF (one boundary), VT, FF, FS, GS, RS and NEL; a trailing boundary opens no further
  line.\<close>

definition is_linebreak :: "char \<Rightarrow> bool" where
  "is_linebreak c \<longleftrightarrow>
     c \<in> set [CHR 0x0A, CHR 0x0D, CHR 0x0B, CHR 0x0C, CHR 0x1C, CHR 0x1D, CHR 0x1E, CHR 0x85]"

fun splitlines_acc :: "string \<Rightarrow> string \<Rightarrow> string list" where
  "splitlines_acc acc [] = (if acc = [] then [] else [rev acc])"
| "splitlines_acc acc [c] = (if is_linebreak c then [rev acc] else [rev (c # acc)])"
| "splitlines_acc acc (c # d # cs) =
     (if c = CHR 0x0D \<and> d = CHR 0x0A then rev acc # splitlines_acc [] cs
      else if is_linebreak c then rev acc # splitlines_acc [] (d # cs)
      else splitlines_acc (c # acc) (d # cs))"

definition splitlines :: "string \<Rightarrow> string list" where
  "splitlines s = splitlines_acc [] s"

text \<open>\<open>sep.join(xs)\<close>.\<close>

fun join :: "string \<Rightarrow> string list \<Rightarrow> string" where
  "join sep [] = []"
| "join sep [x] = x"
| "join sep (x # y # ys) = x @ sep @ join sep (y # ys)"

text \<open>\<open>str(n)\<close> for an integer.\<close>

definition str_int :: "int \<Rightarrow> string" where
  "str_int i = (if i < 0 then CHR ''-'' # str_nat (nat (- i)) else str_nat (nat i))"


section \<open>URL parsing (github_client.py)\<close>

datatype error =
    ValueError string
  | GitHubAPIError string
  | JSONDecodeError
  | AttributeError
  | TypeError
  | IndexError
  | KeyError
  | BinasciiError
  | ValidationError
  | UnicodeEncodeError
  | OpenAIError string

text \<open>\<open>"github.com" in repo_url\<close> is \<^const>\<open>sublist\<close>; \<open>[-1]\<close> on the result of \<open>split\<close> is
  \<^const>\<open>last\<close>, the list is never empty; \<open>repo[:-4]\<close> drops the last four characters.\<close>

definition extract_owner_repo :: "string \<Rightarrow> error + (string \<times> string)" where
  "extract_owner_repo repo_url =
     (if \<not> sublist ''github.com'' repo_url then
        Inl (ValueError ''The provided URL does not appear to be a GitHub repository'')
      else
        let cleaned = rstrip_chars ''/'' (strip repo_url);
            parts = split_str ''/'' (last (split_str ''github.com/'' cleaned))
        in if length parts < 2 then
             Inl (ValueError ''Please include both the owner and repository name in the URL'')
           else
             let owner = parts ! 0;
                 repo = parts ! 1;
                 repo = (if suffix ''.git'' repo then take (length repo - 4) repo else repo)
             in Inr (owner, repo))"


section \<open>Document rendering (pdf_generator.py)\<close>

text \<open>
  Text handed to the PDF library is a list of code points, because one literal of the
  program lies outside Latin-1: the bullet prefix of \<open>_write_list\<close> is the four code points
  U+00E2, U+20AC, U+00A2, U+0020 (the bytes \<open>c3 a2 e2 82 ac c2 a2 20\<close> of the source file).
\<close>

type_synonym pdf_text = "nat list"

definition codepoints :: "string \<Rightarrow> pdf_text" where
  "codepoints s = map of_char s"

definition bullet :: pdf_text where
  "bullet = [0xE2, 0x20AC, 0xA2, 0x20]"

text \<open>
  The FPDF object is a state. It records, in order, the drawing commands it receives
  (\<open>ops\<close>), the page number, the current font, and the vertical position \<open>ypos\<close> (the library's \<open>y\<close>) in
  millimetres below the top margin.

  The library is created with its defaults (A4 portrait, millimetres, margins of 1 cm)
  and \<open>set_auto_page_break(auto=True, margin=15)\<close>. A cell of height \<open>h\<close> turns the page when
  \<open>ypos + h\<close> passes the trigger, 15 mm above the lower edge; measured from the top margin the
  trigger lies at 271.9988 mm, and every height of the program is a whole number, so the
  test is \<open>ypos + h > 271\<close>. Turning the page is \<open>add_page\<close>: the overridden \<open>footer\<close> closes
  the old page, the overridden \<open>header\<close> opens the new one, and the font that was current
  is restored if one had been selected (\<open>if family:\<close>).

  Into how many lines \<open>multi_cell\<close> breaks a text depends on the metrics of the font and
  is a parameter, \<open>wrap\<close>. The library draws at least one line and consumes at least one
  character per line break, which bounds the number of lines by the length of the text
  plus one.
\<close>

datatype pdf_op =
    SetAutoPageBreak bool nat
  | AddPage
  | SetFont string string nat
  | SetTextColor nat nat nat
  | SetY int
  | Cell nat nat pdf_text bool string
  | MultiCell nat nat pdf_text
  | Ln nat

type_synonym font = "string \<times> string \<times> nat"

record AnalysisPDF =
  ops :: "pdf_op list"
  page :: nat
  font :: font
  ypos :: nat

definition new_pdf :: AnalysisPDF where
  "new_pdf = \<lparr>ops = [], page = 0, font = ('''', '''', 12), ypos = 0\<rparr>"

definition emit :: "pdf_op \<Rightarrow> AnalysisPDF \<Rightarrow> AnalysisPDF" where
  "emit x pdf = pdf\<lparr>ops := ops pdf @ [x]\<rparr>"

definition set_font :: "string \<Rightarrow> string \<Rightarrow> nat \<Rightarrow> AnalysisPDF \<Rightarrow> AnalysisPDF" where
  "set_font family style pt pdf = emit (SetFont family style pt) (pdf\<lparr>font := (family, style, pt)\<rparr>)"

definition set_text_color :: "nat \<Rightarrow> nat \<Rightarrow> nat \<Rightarrow> AnalysisPDF \<Rightarrow> AnalysisPDF" where
  "set_text_color r g b pdf = emit (SetTextColor r g b) pdf"

definition ln :: "nat \<Rightarrow> AnalysisPDF \<Rightarrow> AnalysisPDF" where
  "ln h pdf = emit (Ln h) (pdf\<lparr>ypos := ypos pdf + h\<rparr>)"

text \<open>A cell drawn where no page break can happen: in the header, which starts at the
  top margin, and in the footer, where the library switches the test off. With \<open>ln=True\<close>
  the position moves below the cell.\<close>

definition draw_cell :: "nat \<Rightarrow> nat \<Rightarrow> pdf_text \<Rightarrow> bool \<Rightarrow> string \<Rightarrow> AnalysisPDF \<Rightarrow> AnalysisPDF" where
  "draw_cell w h txt newline align pdf =
     (let pdf = emit (Cell w h txt newline align) pdf
      in if newline then pdf\<lparr>ypos := ypos pdf + h\<rparr> else pdf)"

definition header :: "AnalysisPDF \<Rightarrow> AnalysisPDF" where
  "header pdf =
     (let pdf = set_font ''Helvetica'' ''B'' 16 pdf;
          pdf = set_text_color 40 40 40 pdf;
          pdf = draw_cell 0 10 (codepoints ''Gitalyzer Report'') True ''C'' pdf
      in ln 4 pdf)"

text \<open>\<open>set_y(-15)\<close> moves to 15 mm above the lower edge; the position is not read again on
  that page.\<close>

definition footer :: "AnalysisPDF \<Rightarrow> AnalysisPDF" where
  "footer pdf =
     (let pdf = emit (SetY (- 15)) (pdf\<lparr>ypos := 272\<rparr>);
          pdf = set_font ''Helvetica'' '''' 8 pdf;
          pdf = set_text_color 120 120 120 pdf
      in draw_cell 0 10 (codepoints (''Page '' @ str_nat (page pdf))) False ''C'' pdf)"

definition add_page :: "AnalysisPDF \<Rightarrow> AnalysisPDF" where
  "add_page pdf =
     (let current = font pdf;
          pdf = (if page pdf > 0 then footer pdf else pdf);
          pdf = emit AddPage (pdf\<lparr>page := page pdf + 1, ypos := 0\<rparr>);
          pdf = header pdf
      in if fst current \<noteq> [] then pdf\<lparr>font := current\<rparr> else pdf)"

definition page_full :: "nat \<Rightarrow> AnalysisPDF \<Rightarrow> bool" where
  "page_full h pdf \<longleftrightarrow> ypos pdf + h > 271"

definition cell :: "nat \<Rightarrow> nat \<Rightarrow> pdf_text \<Rightarrow> bool \<Rightarrow> string \<Rightarrow> AnalysisPDF \<Rightarrow> AnalysisPDF" where
  "cell w h txt newline align pdf =
     draw_cell w h txt newline align (if page_full h pdf then add_page pdf else pdf)"

text \<open>The lines of a \<open>multi_cell\<close> after the first: each is a cell of its own and may turn
  the page.\<close>

fun more_lines :: "nat \<Rightarrow> nat \<Rightarrow> AnalysisPDF \<Rightarrow> AnalysisPDF" where
  "more_lines 0 h pdf = pdf"
| "more_lines (Suc k) h pdf =
     more_lines k h
       (let pdf = (if page_full h pdf then add_page pdf else pdf) in pdf\<lparr>ypos := ypos pdf + h\<rparr>)"

definition line_count :: "(font \<Rightarrow> pdf_text \<Rightarrow> nat) \<Rightarrow> font \<Rightarrow> pdf_text \<Rightarrow> nat" where
  "line_count wrap f txt = max 1 (min (wrap f txt) (length txt + 1))"

text \<open>The call is recorded where its first line is drawn.\<close>

definition multi_cell ::
  "(font \<Rightarrow> pdf_text \<Rightarrow> nat) \<Rightarrow> nat \<Rightarrow> nat \<Rightarrow> pdf_text \<Rightarrow> AnalysisPDF \<Rightarrow> AnalysisPDF" where
  "multi_cell wrap w h txt pdf =
     (let n = line_count wrap (font pdf) txt;
          pdf = (if page_full h pdf then add_page pdf else pdf);
          pdf = emit (MultiCell w h txt) pdf;
          pdf = pdf\<lparr>ypos := ypos pdf + h\<rparr>
      in more_lines (n - 1) h pdf)"

text \<open>The texts a command sequence prints, in order.\<close>

fun op_text :: "pdf_op \<Rightarrow> pdf_text list" where
  "op_text (Cell w h txt newline align) = [txt]"
| "op_text (MultiCell w h txt) = [txt]"
| "op_text _ = []"

definition printed :: "pdf_op list \<Rightarrow> pdf_text list" where
  "printed xs = concat (map op_text xs)"

text \<open>\<open>pdf.output(dest="S").encode("latin-1")\<close>: closing the document runs the footer of the
  last page; the document is then encoded as Latin-1, which raises \<open>UnicodeEncodeError\<close>
  when a text that was drawn holds a code point above 255. Otherwise the result is the
  document, here the sequence of its commands.\<close>

definition latin1 :: "pdf_text \<Rightarrow> bool" where
  "latin1 txt \<longleftrightarrow> list_all (\<lambda>c. c < 256) txt"

definition output_pdf :: "AnalysisPDF \<Rightarrow> error + pdf_op list" where
  "output_pdf pdf =
     (let pdf = (if page pdf = 0 then add_page pdf else pdf);
          pdf = footer pdf
      in if list_all latin1 (printed (ops pdf)) then Inr (ops pdf) else Inl UnicodeEncodeError)"

text \<open>\<open>body\<close> is \<open>None\<close> for the default argument; \<open>if body:\<close> is false for \<open>None\<close> and for
  the empty string.\<close>

definition write_section ::
  "(font \<Rightarrow> pdf_text \<Rightarrow> nat) \<Rightarrow> string \<Rightarrow> string option \<Rightarrow> AnalysisPDF \<Rightarrow> AnalysisPDF" where
  "write_section wrap title body pdf =
     (let pdf = set_font ''Helvetica'' ''B'' 13 pdf;
          pdf = set_text_color 40 40 40 pdf;
          pdf = multi_cell wrap 0 8 (codepoints title) pdf;
          pdf = ln 1 pdf
      in case body of
           None \<Rightarrow> pdf
         | Some b \<Rightarrow>
             if b \<noteq> [] then
               (let pdf = set_font ''Helvetica'' '''' 11 pdf;
                    pdf = set_text_color 10 10 10 pdf;
                    pdf = multi_cell wrap 0 6 (codepoints b) pdf
                in ln 2 pdf)
             else pdf)"

fun write_items :: "(font \<Rightarrow> pdf_text \<Rightarrow> nat) \<Rightarrow> string list \<Rightarrow> AnalysisPDF \<Rightarrow> AnalysisPDF" where
  "write_items wrap [] pdf = pdf"
| "write_items wrap (item # items) pdf =
     write_items wrap items (multi_cell wrap 0 6 (bullet @ codepoints item) pdf)"

definition write_list :: "(font \<Rightarrow> pdf_text \<Rightarrow> nat) \<Rightarrow> string list \<Rightarrow> AnalysisPDF \<Rightarrow> AnalysisPDF" where
  "write_list wrap items pdf =
     (let pdf = set_font ''Helvetica'' '''' 11 pdf;
          pdf = set_text_color 10 10 10 pdf;
          pdf = write_items wrap items pdf
      in ln 2 pdf)"

text \<open>One list section of \<open>build_pdf\<close>: \<open>if analysis.get(key): _write_section(pdf, title);
  _write_list(pdf, analysis[key])\<close>.\<close>

definition list_section ::
  "(font \<Rightarrow> pdf_text \<Rightarrow> nat) \<Rightarrow> string \<Rightarrow> string list \<Rightarrow> AnalysisPDF \<Rightarrow> AnalysisPDF" where
  "list_section wrap title items pdf =
     (if items \<noteq> [] then write_list wrap items (write_section wrap title None pdf) else pdf)"

fun glossary_entries ::
  "(font \<Rightarrow> pdf_text \<Rightarrow> nat) \<Rightarrow> glossary_item list \<Rightarrow> AnalysisPDF \<Rightarrow> AnalysisPDF" where
  "glossary_entries wrap [] pdf = pdf"
| "glossary_entries wrap (entry # entries) pdf =
     glossary_entries wrap entries
       (if term entry \<noteq> [] \<and> definition entry \<noteq> [] then
          (let pdf = set_font ''Helvetica'' ''B'' 11 pdf;
               pdf = multi_cell wrap 0 6 (codepoints (term entry)) pdf;
               pdf = set_font ''Helvetica'' '''' 11 pdf;
               pdf = multi_cell wrap 0 6 (codepoints (definition entry)) pdf
           in ln 1 pdf)
        else pdf)"

text \<open>\<open>build_pdf\<close> receives \<open>RepositoryAnalysis.model_dump()\<close> from its only caller, so every
  key is present with its declared type and \<open>analysis.get(k)\<close> reads field \<open>k\<close>.\<close>

definition build_pdf ::
  "(font \<Rightarrow> pdf_text \<Rightarrow> nat) \<Rightarrow> string \<Rightarrow> narrative \<Rightarrow> error + pdf_op list" where
  "build_pdf wrap repo_name analysis =
     (let pdf = new_pdf;
          pdf = emit (SetAutoPageBreak True 15) pdf;
          pdf = add_page pdf;
          pdf = set_font ''Helvetica'' ''B'' 18 pdf;
          pdf = cell 0 12 (codepoints (if repo_name \<noteq> [] then repo_name else ''Repository Report''))
                  True '''' pdf;
          pdf = ln 4 pdf;
          pdf = (if project_summary analysis \<noteq> []
                 then write_section wrap ''Project Summary'' (Some (project_summary analysis)) pdf
                 else pdf);
          pdf = write_section wrap ''How it helps people'' (Some (how_it_helps_people analysis)) pdf;
          pdf = list_section wrap ''Main features'' (main_features analysis) pdf;
          pdf = list_section wrap ''How it works'' (how_it_works analysis) pdf;
          pdf = list_section wrap ''Tech explained simply'' (tech_stack analysis) pdf;
          pdf = list_section wrap ''Getting started'' (getting_started analysis) pdf;
          pdf = list_section wrap ''Next steps'' (next_steps analysis) pdf;
          pdf = (if glossary analysis \<noteq> []
                 then glossary_entries wrap (glossary analysis)
                        (write_section wrap ''Glossary'' None pdf)
                 else pdf)
      in output_pdf pdf)"



section \<open>Fetching the snapshot (github_client.py)\<close>

text \<open>JSON values as \<open>json.loads\<close> and \<open>Response.json()\<close> return them; an object keeps its
  members in order, a float its mantissa and exponent.\<close>

datatype json =
    JNull
  | JBool bool
  | JInt int
  | JFloat int int
  | JStr string
  | JArr "json list"
  | JObj "(string \<times> json) list"

text \<open>Python truth value of a JSON value (\<open>x or y\<close>, \<open>if x:\<close>).\<close>

fun truthy :: "json \<Rightarrow> bool" where
  "truthy JNull = False"
| "truthy (JBool b) = b"
| "truthy (JInt i) = (i \<noteq> 0)"
| "truthy (JFloat m e) = (m \<noteq> 0)"
| "truthy (JStr s) = (s \<noteq> [])"
| "truthy (JArr xs) = (xs \<noteq> [])"
| "truthy (JObj kvs) = (kvs \<noteq> [])"

text \<open>\<open>x.get(key, default)\<close>: only a dict has \<open>get\<close>; on anything else the attribute lookup
  raises AttributeError.\<close>

definition py_get :: "json \<Rightarrow> string \<Rightarrow> json \<Rightarrow> error + json" where
  "py_get x key dflt =
     (case x of
        JObj kvs \<Rightarrow> (case map_of kvs key of Some v \<Rightarrow> Inr v | None \<Rightarrow> Inr dflt)
      | _ \<Rightarrow> Inl AttributeError)"

text \<open>\<open>x[key]\<close> with a string key: KeyError on a dict without the key; a list or a string
  takes no string index, the other values no index at all.\<close>

definition py_item :: "json \<Rightarrow> string \<Rightarrow> error + json" where
  "py_item x key =
     (case x of
        JObj kvs \<Rightarrow> (case map_of kvs key of Some v \<Rightarrow> Inr v | None \<Rightarrow> Inl KeyError)
      | _ \<Rightarrow> Inl TypeError)"

text \<open>\<open>(x or {}).get(key)\<close>.\<close>

definition or_empty_get :: "json \<Rightarrow> string \<Rightarrow> error + json" where
  "or_empty_get x key = py_get (if truthy x then x else JObj []) key JNull"

text \<open>Sequencing of steps that may raise.\<close>

definition and_then :: "error + 'a \<Rightarrow> ('a \<Rightarrow> error + 'b) \<Rightarrow> error + 'b" where
  "and_then r f = (case r of Inl e \<Rightarrow> Inl e | Inr x \<Rightarrow> f x)"

text \<open>An HTTP response as the program reads it: the status code, the body text, and the
  body decoded by \<open>.json()\<close> (\<open>None\<close> when the body is not JSON and \<open>.json()\<close> raises).\<close>

record response =
  status_code :: nat
  "text" :: string
  json_body :: "json option"

definition resp_json :: "response \<Rightarrow> error + json" where
  "resp_json r = (case json_body r of None \<Rightarrow> Inl JSONDecodeError | Some j \<Rightarrow> Inr j)"

definition GITHUB_API_BASE :: string where
  "GITHUB_API_BASE = ''https://api.github.com''"

definition repo_endpoint :: "string \<Rightarrow> string \<Rightarrow> string" where
  "repo_endpoint owner repo = GITHUB_API_BASE @ ''/repos/'' @ owner @ ''/'' @ repo"

text \<open>\<open>for item in commits_resp.json()\<close>: a list yields its elements, a dict its keys, a
  string its characters; anything else is not iterable.\<close>

definition py_iter :: "json \<Rightarrow> error + json list" where
  "py_iter j =
     (case j of
        JArr xs \<Rightarrow> Inr xs
      | JObj kvs \<Rightarrow> Inr (map (\<lambda>kv. JStr (fst kv)) kvs)
      | JStr s \<Rightarrow> Inr (map (\<lambda>c. JStr [c]) s)
      | _ \<Rightarrow> Inl TypeError)"

definition commit_of_item :: "json \<Rightarrow> error + json" where
  "commit_of_item item =
     and_then (py_get item ''commit'' (JObj [])) (\<lambda>commit.
     and_then (py_get commit ''message'' (JStr [])) (\<lambda>msg.
     and_then (py_get commit ''author'' JNull) (\<lambda>author.
     and_then (or_empty_get author ''date'') (\<lambda>d.
       Inr (JObj [(''message'', msg), (''date'', d)])))))"

fun collect_commits :: "json list \<Rightarrow> json list \<Rightarrow> error + json list" where
  "collect_commits [] commits = Inr commits"
| "collect_commits (item # items) commits =
     and_then (commit_of_item item) (\<lambda>c. collect_commits items (commits @ [c]))"

text \<open>The README block. \<open>b64text\<close> stands for \<open>base64.b64decode(s.encode())\<close> followed by
  \<open>decode("utf-8", errors="ignore")\<close>, both of the standard library; it fails with
  \<open>binascii.Error\<close> on malformed input. \<open>.encode()\<close> exists on a string only.\<close>

definition readme_of_payload :: "(string \<Rightarrow> string option) \<Rightarrow> json \<Rightarrow> error + string" where
  "readme_of_payload b64text readme_payload =
     and_then (py_get readme_payload ''encoding'' (JStr ''base64'')) (\<lambda>encoding.
       case readme_payload of
         JObj kvs \<Rightarrow>
           (if encoding = JStr ''base64'' \<and> map_of kvs ''content'' \<noteq> None then
              (case map_of kvs ''content'' of
                 Some (JStr s) \<Rightarrow>
                   (case b64text s of None \<Rightarrow> Inl BinasciiError | Some t \<Rightarrow> Inr t)
               | _ \<Rightarrow> Inl AttributeError)
            else Inr [])
       | _ \<Rightarrow> Inl AttributeError)"

text \<open>The part after the requests: \<open>topics = repo_data.get("topics", [])\<close> and the
  dictionary that is returned, a JSON object with its keys in the order of the source.\<close>

definition snapshot_dict :: "json \<Rightarrow> json \<Rightarrow> string \<Rightarrow> json list \<Rightarrow> error + json" where
  "snapshot_dict repo_data languages_data readme_text commits =
        and_then (py_get repo_data ''topics'' (JArr [])) (\<lambda>topics_v.
        and_then (py_get repo_data ''name'' JNull) (\<lambda>name_v.
        and_then (py_get repo_data ''full_name'' JNull) (\<lambda>full_name_v.
        and_then (py_get repo_data ''description'' JNull) (\<lambda>description_v.
        and_then (py_get repo_data ''html_url'' JNull) (\<lambda>html_url_v.
        and_then (py_get repo_data ''default_branch'' JNull) (\<lambda>default_branch_v.
        and_then (py_get repo_data ''license'' JNull) (\<lambda>license_obj.
        and_then (or_empty_get license_obj ''name'') (\<lambda>license_v.
        and_then (py_get repo_data ''stargazers_count'' (JInt 0)) (\<lambda>stars_v.
        and_then (py_get repo_data ''forks_count'' (JInt 0)) (\<lambda>forks_v.
        and_then (py_get repo_data ''open_issues_count'' (JInt 0)) (\<lambda>open_issues_v.
        and_then (py_get repo_data ''subscribers_count'' (JInt 0)) (\<lambda>watchers_v.
        and_then (py_get repo_data ''language'' JNull) (\<lambda>language_v.
          Inr (JObj
            [(''name'', name_v), (''full_name'', full_name_v), (''description'', description_v),
             (''html_url'', html_url_v), (''default_branch'', default_branch_v),
             (''license'', license_v), (''stars'', stars_v), (''forks'', forks_v),
             (''open_issues'', open_issues_v), (''watchers'', watchers_v),
             (''language'', language_v), (''topics'', topics_v),
             (''languages'', languages_data), (''recent_commits'', JArr commits),
             (''readme_excerpt'', JStr (take 4000 readme_text))]))))))))))))))"

text \<open>\<open>client\<close> is the HTTP client: the response it delivers for a request URL (the commits
  request carries the query \<open>per_page=5\<close>). Transport failures and timeouts are not
  modelled: every request is answered.\<close>

definition fetch_repository_snapshot ::
  "(string \<Rightarrow> response) \<Rightarrow> (string \<Rightarrow> string option) \<Rightarrow> string \<Rightarrow> string \<Rightarrow> error + json" where
  "fetch_repository_snapshot client b64text owner repo =
     (let repo_resp = client (repo_endpoint owner repo) in
      if status_code repo_resp \<noteq> 200 then
        Inl (GitHubAPIError (''Unable to retrieve repository: '' @ str_nat (status_code repo_resp)
                              @ '' '' @ text repo_resp))
      else
        and_then (resp_json repo_resp) (\<lambda>repo_data.
        let languages_resp = client (repo_endpoint owner repo @ ''/languages'') in
        and_then (if status_code languages_resp = 200 then resp_json languages_resp
                  else Inr (JObj [])) (\<lambda>languages_data.
        let readme_resp = client (repo_endpoint owner repo @ ''/readme'') in
        and_then (if status_code readme_resp = 200
                  then and_then (resp_json readme_resp) (readme_of_payload b64text)
                  else Inr []) (\<lambda>readme_text.
        let commits_resp = client (repo_endpoint owner repo @ ''/commits?per_page=5'') in
        and_then (if status_code commits_resp = 200
                  then and_then (resp_json commits_resp) (\<lambda>j.
                       and_then (py_iter j) (\<lambda>items. collect_commits items []))
                  else Inr []) (\<lambda>commits.
        snapshot_dict repo_data languages_data readme_text commits)))))"


section \<open>The rule-based fallback (ai_agent.py)\<close>

text \<open>\<open>lines = [line.strip() for line in context.splitlines() if line.strip()]\<close>.\<close>

definition context_lines :: "string \<Rightarrow> string list" where
  "context_lines context = map strip (filter (\<lambda>line. strip line \<noteq> []) (splitlines context))"

text \<open>\<open>next((line.split(":", 1)[1].strip() for line in lines if line.startswith(label)), "")\<close>:
  the generator is lazy, so only the first line with the prefix is split; \<open>[1]\<close> raises
  IndexError when the split yields one piece.\<close>

definition first_labelled :: "string \<Rightarrow> string list \<Rightarrow> error + string" where
  "first_labelled label lines =
     (case find (prefix label) lines of
        None \<Rightarrow> Inr []
      | Some line \<Rightarrow>
          (case split_once '':'' [] line of
             _ # v # _ \<Rightarrow> Inr (strip v)
           | _ \<Rightarrow> Inl IndexError))"

definition json_strings :: "string list \<Rightarrow> json" where
  "json_strings xs = JArr (map JStr xs)"

text \<open>\<open>languages.split(",")[0]\<close>: the result of \<open>split\<close> is never empty.\<close>

definition generate_rule_based_summary :: "string \<Rightarrow> error + json" where
  "generate_rule_based_summary context =
     (let lines = context_lines context in
      and_then (first_labelled ''Description:'' lines) (\<lambda>description.
      and_then (first_labelled ''Languages:'' lines) (\<lambda>languages.
      let headline = (if description \<noteq> [] then description
                      else ''This repository does not include a description on GitHub.'')
      in Inr (JObj
        [(''project_summary'', JStr headline),
         (''how_it_helps_people'', JStr
            (''This project could be useful to people who are interested in exploring the code base. '' @
             ''Provide an OpenAI API key to unlock a tailored explanation.'')),
         (''main_features'', json_strings
            [''Automatic GitHub metadata gathering'',
             ''Displays the README excerpt if one exists'',
             ''Summarises recent commit messages for a quick update'']),
         (''how_it_works'', json_strings
            [''The app downloads information directly from GitHub using their public API.'',
             ''It organises the repository details, language statistics, and README summary.'',
             ''Without an AI key it falls back to this simple overview to keep the experience working.'']),
         (''tech_stack'', json_strings
            [''GitHub topics: '' @ (if languages \<noteq> [] then languages else ''Not specified''),
             ''Primary language reported by GitHub: '' @
               (if languages \<noteq> [] then hd (split_str '','' languages) else ''Unknown''),
             ''Recent commits are highlighted to show ongoing work.'']),
         (''getting_started'', json_strings
            [''Paste a public GitHub repository URL into the form.'',
             ''Optionally provide an OpenAI API key so the AI guide can craft a custom explanation.'',
             ''Review the generated summary online or export it as a PDF.'']),
         (''next_steps'', json_strings
            [''Add an OpenAI API key to unlock richer, human-friendly storytelling.'',
             ''Share the generated PDF with teammates who need a high-level overview.'',
             ''Explore the README and commits directly on GitHub for deeper technical context.'']),
         (''glossary'', JArr
            [JObj [(''term'', JStr ''Repository''),
                   (''definition'', JStr ''A storage space on GitHub that holds a project's files.'')],
             JObj [(''term'', JStr ''Commit''),
                   (''definition'', JStr ''A snapshot of changes developers save to the project.'')],
             JObj [(''term'', JStr ''README''),
                   (''definition'', JStr ''A document that usually explains what the project is about.'')]])]))))"


text \<open>\<open>generate_rule_based_summary(context)[key]\<close>.\<close>

definition fallback_field :: "string \<Rightarrow> string \<Rightarrow> error + json" where
  "fallback_field key context = and_then (generate_rule_based_summary context) (\<lambda>j. py_item j key)"


section \<open>Building the context (main.py)\<close>

text \<open>The validated \<open>RepositoryInfo\<close> model. A dictionary with string keys is an association
  list in insertion order.\<close>

record RepositoryInfo =
  name :: "string option"
  full_name :: "string option"
  description :: "string option"
  html_url :: "string option"
  default_branch :: "string option"
  license :: "string option"
  stars :: int
  forks :: int
  open_issues :: int
  watchers :: int
  language :: "string option"
  topics :: "string list"
  languages :: "(string \<times> int) list"
  recent_commits :: "(string \<times> string option) list list"
  readme_excerpt :: "string option"

text \<open>\<open>x or dflt\<close> on an optional string inside an f-string, with a string default.\<close>

definition or_default :: "string option \<Rightarrow> string \<Rightarrow> string" where
  "or_default x dflt = (case x of None \<Rightarrow> dflt | Some s \<Rightarrow> if s \<noteq> [] then s else dflt)"

text \<open>\<open>f"{repo.full_name or repo.name}"\<close>: the second operand is formatted as it is, \<open>None\<close>
  prints as the word None.\<close>

definition format_optional :: "string option \<Rightarrow> string" where
  "format_optional x = (case x of None \<Rightarrow> ''None'' | Some s \<Rightarrow> s)"

definition repository_label :: "RepositoryInfo \<Rightarrow> string" where
  "repository_label repo =
     (case full_name repo of
        Some s \<Rightarrow> if s \<noteq> [] then s else format_optional (name repo)
      | None \<Rightarrow> format_optional (name repo))"

text \<open>One commit line. \<open>item.get('message', '')\<close> is \<open>None\<close> when the key is present with value
  \<open>None\<close>, and \<open>None.strip()\<close> raises AttributeError.\<close>

definition commit_line :: "(string \<times> string option) list \<Rightarrow> error + string" where
  "commit_line item =
     (case (case map_of item ''message'' of None \<Rightarrow> Some [] | Some m \<Rightarrow> m) of
        None \<Rightarrow> Inl AttributeError
      | Some m \<Rightarrow>
          Inr (''  - '' @ strip m @ '' ('' @
               (case map_of item ''date'' of None \<Rightarrow> ''unknown date'' | Some d \<Rightarrow> format_optional d)
               @ '')''))"

fun commit_lines :: "(string \<times> string option) list list \<Rightarrow> error + string list" where
  "commit_lines [] = Inr []"
| "commit_lines (item # items) =
     and_then (commit_line item) (\<lambda>l. and_then (commit_lines items) (\<lambda>ls. Inr (l # ls)))"

definition build_context :: "RepositoryInfo \<Rightarrow> error + string" where
  "build_context repo =
     (let languages_line =
            join '', '' (map (\<lambda>(name, score). name @ '' ('' @ str_int score @ '')'') (languages repo))
      in and_then (commit_lines (recent_commits repo)) (\<lambda>ls.
         let commits_lines = join [CHR 0x0A] ls in
         Inr (''Repository: '' @ repository_label repo @ [CHR 0x0A] @
              ''Description: '' @ or_default (description repo) ''No description provided.'' @ [CHR 0x0A] @
              ''Primary language: '' @ or_default (language repo) ''Unknown'' @ [CHR 0x0A] @
              ''Languages: '' @ (if languages_line \<noteq> [] then languages_line else ''Not reported'')
                @ [CHR 0x0A] @
              ''Stars: '' @ str_int (stars repo) @ '', Forks: '' @ str_int (forks repo) @
                '', Open issues: '' @ str_int (open_issues repo) @ [CHR 0x0A] @
              ''Topics: '' @ (if topics repo \<noteq> [] then join '', '' (topics repo) else ''None'')
                @ [CHR 0x0A] @
              ''Default branch: '' @ or_default (default_branch repo) ''main'' @ [CHR 0x0A] @
              ''Recent commits:'' @ [CHR 0x0A] @
              (if commits_lines \<noteq> [] then commits_lines else ''  - No recent commits retrieved.'')
                @ [CHR 0x0A] @
              ''README excerpt:'' @ [CHR 0x0A] @
              or_default (readme_excerpt repo) ''No README available.'')))"


section \<open>Narrative validation (main.py)\<close>

text \<open>
  \<open>RepositoryAnalysis.model_validate(result)\<close> on the value returned by \<open>json.loads\<close> or by
  the fallback. The classes \<open>GlossaryItem\<close> and \<open>RepositoryAnalysis\<close> declare the fields; they
  set no \<open>model_config\<close>, so the validator of the pydantic library (version 2, the one with
  \<open>model_validate\<close> and \<open>model_dump\<close>) runs with its defaults: a field without a default is
  required, a field with \<open>default_factory=list\<close> is the empty list when absent, a \<open>str\<close>
  field takes a string and nothing else, a \<open>list[...]\<close> field takes a list and validates
  every element, a model field takes a dictionary, keys that are not fields are ignored,
  and every violation raises \<open>ValidationError\<close>.
\<close>

definition validate_str :: "json \<Rightarrow> error + string" where
  "validate_str v = (case v of JStr s \<Rightarrow> Inr s | _ \<Rightarrow> Inl ValidationError)"

fun validate_each :: "(json \<Rightarrow> error + 'a) \<Rightarrow> json list \<Rightarrow> error + 'a list" where
  "validate_each f [] = Inr []"
| "validate_each f (v # vs) =
     (case f v of
        Inl e \<Rightarrow> Inl e
      | Inr x \<Rightarrow> (case validate_each f vs of Inl e \<Rightarrow> Inl e | Inr xs \<Rightarrow> Inr (x # xs)))"

definition validate_list :: "(json \<Rightarrow> error + 'a) \<Rightarrow> json \<Rightarrow> error + 'a list" where
  "validate_list f v = (case v of JArr vs \<Rightarrow> validate_each f vs | _ \<Rightarrow> Inl ValidationError)"

definition required_field :: "(json \<Rightarrow> error + 'a) \<Rightarrow> (string \<times> json) list \<Rightarrow> string \<Rightarrow> error + 'a" where
  "required_field f obj key = (case map_of obj key of None \<Rightarrow> Inl ValidationError | Some v \<Rightarrow> f v)"

definition list_field :: "(json \<Rightarrow> error + 'a) \<Rightarrow> (string \<times> json) list \<Rightarrow> string \<Rightarrow> error + 'a list" where
  "list_field f obj key = (case map_of obj key of None \<Rightarrow> Inr [] | Some v \<Rightarrow> validate_list f v)"

definition validate_glossary_item :: "json \<Rightarrow> error + glossary_item" where
  "validate_glossary_item v =
     (case v of
        JObj obj \<Rightarrow>
          and_then (required_field validate_str obj ''term'') (\<lambda>t.
          and_then (required_field validate_str obj ''definition'') (\<lambda>d.
            Inr \<lparr>term = t, definition = d\<rparr>))
      | _ \<Rightarrow> Inl ValidationError)"

definition validate_analysis :: "json \<Rightarrow> error + narrative" where
  "validate_analysis v =
     (case v of
        JObj obj \<Rightarrow>
          and_then (required_field validate_str obj ''project_summary'') (\<lambda>ps.
          and_then (required_field validate_str obj ''how_it_helps_people'') (\<lambda>hh.
          and_then (list_field validate_str obj ''main_features'') (\<lambda>mf.
          and_then (list_field validate_str obj ''how_it_works'') (\<lambda>hw.
          and_then (list_field validate_str obj ''tech_stack'') (\<lambda>ts.
          and_then (list_field validate_str obj ''getting_started'') (\<lambda>gs.
          and_then (list_field validate_str obj ''next_steps'') (\<lambda>ns.
          and_then (list_field validate_glossary_item obj ''glossary'') (\<lambda>gl.
            Inr \<lparr>project_summary = ps, how_it_helps_people = hh, main_features = mf,
                 how_it_works = hw, tech_stack = ts, getting_started = gs, next_steps = ns,
                 glossary = gl\<rparr>))))))))
      | _ \<Rightarrow> Inl ValidationError)"

text \<open>A validator that raises nothing but \<open>ValidationError\<close>.\<close>

definition only_validation_error :: "(json \<Rightarrow> error + 'a) \<Rightarrow> bool" where
  "only_validation_error f \<longleftrightarrow> (\<forall>v e. f v = Inl e \<longrightarrow> e = ValidationError)"

definition analysis_field_names :: "string list" where
  "analysis_field_names =
     [''project_summary'', ''how_it_helps_people'', ''main_features'', ''how_it_works'',
      ''tech_stack'', ''getting_started'', ''next_steps'', ''glossary'']"

definition analysis_list_fields :: "string list" where
  "analysis_list_fields =
     [''main_features'', ''how_it_works'', ''tech_stack'', ''getting_started'', ''next_steps'',
      ''glossary'']"


section \<open>Calling the language model (config.py, ai_agent.py)\<close>

definition SYSTEM_PROMPT :: string where
  "SYSTEM_PROMPT =
     ''You are Gitalyzer, an AI guide that explains software projects in plain language. '' @
     ''Assume the listener has no background in programming. Use friendly, non-technical '' @
     ''language, keep sentences short, and provide helpful analogies when possible. '' @
     ''Highlight what problems the project solves, what someone can do with it, and the '' @
     ''minimum technical steps needed to try it out. Always sound encouraging and practical.''"

definition ANALYSIS_FIELDS :: "(string \<times> string) list" where
  "ANALYSIS_FIELDS =
     [(''project_summary'',
       ''A warm, one-paragraph overview that explains the project at a very high level.''),
      (''how_it_helps_people'',
       ''A plain-language explanation of the real-world value it delivers.''),
      (''main_features'',
       ''Three to five bullet points describing the most important things the project can do.''),
      (''how_it_works'',
       ''Step-by-step bullets that describe, without jargon, how the project behaves behind the scenes.''),
      (''tech_stack'',
       ''A bullet list of the main tools, frameworks, or languages, each explained simply.''),
      (''getting_started'',
       ''A checklist someone could follow to see the project running, phrased for non-experts.''),
      (''next_steps'',
       ''Friendly suggestions for future improvements or directions to explore.''),
      (''glossary'',
       ''A short dictionary of tricky words with beginner-friendly definitions.'')]"

definition build_user_prompt :: "string \<Rightarrow> string" where
  "build_user_prompt context =
     (let schema_lines = map (\<lambda>(field, description). ''- '' @ field @ '': '' @ description) ANALYSIS_FIELDS
      in ''You will receive a description of a GitHub repository. '' @
         ''Explain the project to a complete beginner and respond with valid JSON.'' @
         [CHR 0x0A, CHR 0x0A] @
         ''Required JSON fields:'' @ [CHR 0x0A] @
         join [CHR 0x0A] schema_lines @
         [CHR 0x0A, CHR 0x0A] @
         ''Important rules:'' @ [CHR 0x0A] @
         ''- Keep language friendly and free of jargon.'' @ [CHR 0x0A] @
         ''- Every list should contain at least three helpful items when possible.'' @ [CHR 0x0A] @
         ''- Definitions in the glossary must be short and clear.'' @ [CHR 0x0A] @
         ''- Return only valid JSON. Do not wrap it in code fences.'' @ [CHR 0x0A, CHR 0x0A] @
         ''Repository information:'' @ [CHR 0x0A] @
         context)"

text \<open>
  The services the request handler calls and does not implement:
  \<^item> \<open>http_get\<close>, the HTTP client, and \<open>b64_text\<close>, as in the snapshot fetch;
  \<^item> \<open>validate_repo\<close>, that is \<open>RepositoryInfo.model_validate\<close> on the snapshot;
  \<^item> \<open>chat\<close>, the chat-completion request with its key, model name, system and user
    message (temperature 0.3): it raises, or delivers the content of the first choice,
    which may be \<open>None\<close>;
  \<^item> \<open>json_loads\<close>, the standard parser, \<open>None\<close> when it raises \<open>JSONDecodeError\<close>;
  \<^item> \<open>exc_text\<close>, \<open>str(exc)\<close> for an exception raised by a library.
\<close>

record services =
  http_get :: "string \<Rightarrow> response"
  b64_text :: "string \<Rightarrow> string option"
  validate_repo :: "json \<Rightarrow> error + RepositoryInfo"
  chat :: "string \<Rightarrow> string \<Rightarrow> string \<Rightarrow> string \<Rightarrow> error + string option"
  json_loads :: "string \<Rightarrow> json option"
  exc_text :: "error \<Rightarrow> string"

definition call_ai_agent :: "services \<Rightarrow> string \<Rightarrow> string \<Rightarrow> string \<Rightarrow> error + (json \<times> string)" where
  "call_ai_agent sv context api_key model =
     and_then (chat sv api_key model SYSTEM_PROMPT (build_user_prompt context)) (\<lambda>content.
       let message = or_default content ''{}'' in
       case json_loads sv message of
         None \<Rightarrow> Inl JSONDecodeError
       | Some data \<Rightarrow> Inr (data, message))"


section \<open>The request handler (main.py)\<close>

record AnalyzeRequest =
  repo_url :: string
  api_key :: "string option"
  model :: "string option"

record AnalyzeResponse =
  repository :: RepositoryInfo
  analysis :: narrative
  used_ai :: bool
  raw_response :: "string option"

text \<open>How a request can fail: with an \<open>HTTPException\<close> (status, detail) raised by the handler,
  or with an exception nobody catches, which the framework answers with status 500.\<close>

datatype failure = HTTPException nat string | Unhandled error

text \<open>\<open>str(exc)\<close>: the two exceptions of the program carry their message.\<close>

definition str_exc :: "services \<Rightarrow> error \<Rightarrow> string" where
  "str_exc sv e = (case e of ValueError m \<Rightarrow> m | GitHubAPIError m \<Rightarrow> m | _ \<Rightarrow> exc_text sv e)"

text \<open>The block that produces \<open>result\<close>, \<open>raw_response\<close> and \<open>used_ai\<close>. \<open>if payload.api_key:\<close> is
  false for \<open>None\<close> and for the empty string; \<open>except Exception\<close> catches whatever the call
  raises; an exception of the fallback itself is not caught.\<close>

definition produce_narrative ::
  "services \<Rightarrow> AnalyzeRequest \<Rightarrow> string \<Rightarrow> error + (json \<times> string option \<times> bool)" where
  "produce_narrative sv payload context =
     (case api_key payload of
        None \<Rightarrow> and_then (generate_rule_based_summary context) (\<lambda>result. Inr (result, None, False))
      | Some key \<Rightarrow>
          if key \<noteq> [] then
            (case call_ai_agent sv context key (or_default (model payload) ''gpt-4o-mini'') of
               Inr (result, raw) \<Rightarrow> Inr (result, Some raw, True)
             | Inl exc \<Rightarrow>
                 and_then (generate_rule_based_summary context) (\<lambda>result.
                   Inr (result, Some (''AI call failed: '' @ str_exc sv exc), False)))
          else and_then (generate_rule_based_summary context) (\<lambda>result. Inr (result, None, False)))"

definition analyze_repository :: "services \<Rightarrow> AnalyzeRequest \<Rightarrow> failure + AnalyzeResponse" where
  "analyze_repository sv payload =
     (case extract_owner_repo (repo_url payload) of
        Inl (ValueError m) \<Rightarrow> Inl (HTTPException 400 m)
      | Inl exc \<Rightarrow> Inl (Unhandled exc)
      | Inr (owner, repo) \<Rightarrow>
     (case fetch_repository_snapshot (http_get sv) (b64_text sv) owner repo of
        Inl (GitHubAPIError m) \<Rightarrow> Inl (HTTPException 502 m)
      | Inl exc \<Rightarrow> Inl (Unhandled exc)
      | Inr snapshot \<Rightarrow>
     (case validate_repo sv snapshot of
        Inl exc \<Rightarrow> Inl (Unhandled exc)
      | Inr repo_info \<Rightarrow>
     (case build_context repo_info of
        Inl exc \<Rightarrow> Inl (Unhandled exc)
      | Inr context \<Rightarrow>
     (case produce_narrative sv payload context of
        Inl exc \<Rightarrow> Inl (Unhandled exc)
      | Inr (result, raw, ai) \<Rightarrow>
     (case validate_analysis result of
        Inl exc \<Rightarrow> Inl (HTTPException 500 (''Failed to parse analysis: '' @ str_exc sv exc))
      | Inr a \<Rightarrow>
          Inr \<lparr>repository = repo_info, analysis = a, used_ai = ai, raw_response = raw\<rparr>))))))"

definition http_status :: "failure + AnalyzeResponse \<Rightarrow> nat" where
  "http_status r =
     (case r of Inr _ \<Rightarrow> 200 | Inl (HTTPException status _) \<Rightarrow> status | Inl (Unhandled _) \<Rightarrow> 500)"


section \<open>Example inputs\<close>

text \<open>A provider that answers every request with status 200 and an empty JSON object, a
  repository model for that snapshot, a parser that knows the text \<open>{}\<close>, and a chat service
  with a fixed outcome.\<close>

definition example_info :: RepositoryInfo where
  "example_info =
     \<lparr>name = None, full_name = None, description = None, html_url = None, default_branch = None,
      license = None, stars = 0, forks = 0, open_issues = 0, watchers = 0, language = None,
      topics = [], languages = [], recent_commits = [], readme_excerpt = Some []\<rparr>"

definition example_services :: "error + string option \<Rightarrow> services" where
  "example_services outcome =
     \<lparr>http_get = (\<lambda>url. \<lparr>status_code = 200, text = ''{}'', json_body = Some (JObj [])\<rparr>),
      b64_text = (\<lambda>s. None),
      validate_repo = (\<lambda>snapshot. Inr example_info),
      chat = (\<lambda>key model system user. outcome),
      json_loads = (\<lambda>s. if s = ''{}'' then Some (JObj []) else None),
      exc_text = (\<lambda>e. ''error'')\<rparr>"

definition example_request :: AnalyzeRequest where
  "example_request =
     \<lparr>repo_url = ''https://github.com/abez123/gitalyzer'', api_key = Some ''sk-test'', model = None\<rparr>"


section \<open>Properties of the document renderer\<close>

lemma str_nat_1: "str_nat (Suc 0) = ''1''"
  by (simp add: str_nat.simps digit_char_def)

lemma latin1_codepoints: "latin1 (codepoints s)"
  by (induction s) (simp_all add: latin1_def codepoints_def)



lemma printed_Cons: "printed (x # xs) = op_text x @ printed xs"
  by (simp add: printed_def)

lemma printed_Nil: "printed [] = []"
  by (simp add: printed_def)

text \<open>While the page has room, the further lines of a text only move the position.\<close>

lemma more_lines_fit:
  "ypos pdf + h * k \<le> 271 \<Longrightarrow> more_lines k h pdf = pdf\<lparr>ypos := ypos pdf + h * k\<rparr>"
proof (induction k arbitrary: pdf)
  case 0
  show ?case by simp
next
  case (Suc k)
  from Suc.prems have nf: "\<not> page_full h pdf" by (simp add: page_full_def)
  from Suc.prems have "ypos (pdf\<lparr>ypos := ypos pdf + h\<rparr>) + h * k \<le> 271" by simp
  from Suc.IH [OF this] nf show ?case by (simp add: add.assoc)
qed

lemma line_count_bounds: "1 \<le> line_count wrap f txt" "line_count wrap f txt \<le> length txt + 1"
  by (simp_all add: line_count_def)

lemma multi_cell_fit:
  assumes "ypos pdf + h * (length txt + 1) \<le> 271"
  shows "multi_cell wrap w h txt pdf =
           pdf\<lparr>ops := ops pdf @ [MultiCell w h txt],
                ypos := ypos pdf + h * line_count wrap (font pdf) txt\<rparr>"
proof -
  let ?n = "line_count wrap (font pdf) txt"
  have n: "1 \<le> ?n" "?n \<le> length txt + 1" by (rule line_count_bounds)+
  have le: "h * ?n \<le> h * (length txt + 1)" using n(2) by (rule mult_le_mono2)
  have "h \<le> h * ?n" using n(1) by (cases ?n) simp_all
  with le assms have nf: "\<not> page_full h pdf" by (simp add: page_full_def)
  have split: "h + h * (?n - 1) = h * ?n" using n(1) by (cases ?n) simp_all
  let ?p = "(emit (MultiCell w h txt) pdf)\<lparr>ypos := ypos (emit (MultiCell w h txt) pdf) + h\<rparr>"
  have "ypos ?p + h * (?n - 1) \<le> 271"
    using assms le split by (simp add: emit_def)
  from more_lines_fit [OF this]
  have "more_lines (?n - 1) h ?p = ?p\<lparr>ypos := ypos ?p + h * (?n - 1)\<rparr>" .
  then show ?thesis
    unfolding multi_cell_def Let_def using nf split by (simp add: emit_def add.assoc)
qed

text \<open>The document of the empty narrative, whatever the line breaking.\<close>

lemma build_pdf_empty:
  "build_pdf wrap repo_name empty_narrative =
     Inr [SetAutoPageBreak True 15, AddPage, SetFont ''Helvetica'' ''B'' 16,
          SetTextColor 40 40 40, Cell 0 10 (codepoints ''Gitalyzer Report'') True ''C'', Ln 4,
          SetFont ''Helvetica'' ''B'' 18,
          Cell 0 12 (codepoints (if repo_name \<noteq> [] then repo_name else ''Repository Report''))
            True '''',
          Ln 4, SetFont ''Helvetica'' ''B'' 13, SetTextColor 40 40 40,
          MultiCell 0 8 (codepoints ''How it helps people''), Ln 1, SetY (- 15),
          SetFont ''Helvetica'' '''' 8, SetTextColor 120 120 120,
          Cell 0 10 (codepoints ''Page 1'') False ''C'']"
proof -
  define p0 where "p0 = ln 4 (cell 0 12
      (codepoints (if repo_name \<noteq> [] then repo_name else ''Repository Report'')) True ''''
      (set_font ''Helvetica'' ''B'' 18 (add_page (emit (SetAutoPageBreak True 15) new_pdf))))"
  have p0: "p0 = \<lparr>ops = [SetAutoPageBreak True 15, AddPage, SetFont ''Helvetica'' ''B'' 16,
          SetTextColor 40 40 40, Cell 0 10 (codepoints ''Gitalyzer Report'') True ''C'', Ln 4,
          SetFont ''Helvetica'' ''B'' 18,
          Cell 0 12 (codepoints (if repo_name \<noteq> [] then repo_name else ''Repository Report''))
            True '''', Ln 4],
        page = 1, font = (''Helvetica'', ''B'', 18), ypos = 30\<rparr>"
    unfolding p0_def
    by (simp add: new_pdf_def emit_def add_page_def header_def set_font_def set_text_color_def
        draw_cell_def ln_def cell_def page_full_def Let_def)
  define p1 where "p1 = set_text_color 40 40 40 (set_font ''Helvetica'' ''B'' 13 p0)"
  have p1: "p1 = \<lparr>ops = ops p0 @ [SetFont ''Helvetica'' ''B'' 13, SetTextColor 40 40 40],
        page = 1, font = (''Helvetica'', ''B'', 13), ypos = 30\<rparr>"
    unfolding p1_def p0 by (simp add: emit_def set_font_def set_text_color_def)
  have fit: "ypos p1 + 8 * (length (codepoints ''How it helps people'') + 1) \<le> 271"
    unfolding p1 by (simp add: codepoints_def)
  define p2 where "p2 = ln 1 (multi_cell wrap 0 8 (codepoints ''How it helps people'') p1)"
  have p2: "ops p2 = ops p0 @ [SetFont ''Helvetica'' ''B'' 13, SetTextColor 40 40 40,
          MultiCell 0 8 (codepoints ''How it helps people''), Ln 1]" "page p2 = 1"
    unfolding p2_def multi_cell_fit [OF fit] by (simp_all add: p1 ln_def emit_def)
  have ws: "write_section wrap ''How it helps people'' (Some []) p0 = p2"
    unfolding write_section_def p2_def p1_def Let_def by simp
  have b: "build_pdf wrap repo_name empty_narrative = output_pdf p2"
    unfolding build_pdf_def Let_def
    by (simp add: empty_narrative_def list_section_def ws [unfolded p0_def])
  have f: "ops (footer p2) = ops p2 @ [SetY (- 15), SetFont ''Helvetica'' '''' 8,
          SetTextColor 120 120 120, Cell 0 10 (codepoints ''Page 1'') False ''C'']"
    by (simp add: footer_def Let_def emit_def set_font_def set_text_color_def draw_cell_def p2
        str_nat_1)
  have l: "list_all latin1 (printed (ops (footer p2)))"
    unfolding f p2 p0
    by (simp add: printed_def latin1_codepoints)
  show ?thesis
    unfolding b output_pdf_def Let_def using l by (simp add: p2(2) f p2(1) p0)
qed

text \<open>
  C1. For the narrative whose list fields are all empty and whose two text fields are
  empty strings, and for every line breaking, the renderer returns a one-page document
  whose texts are the page header, the title, the heading "How it helps people" and the
  page footer. The summary section and every list section are guarded and leave no
  heading; the section writer for "How it helps people" is called without a guard, so
  its heading is printed above an empty section.
\<close>

theorem empty_narrative_prints_heading:
  "\<exists>doc. build_pdf wrap repo_name empty_narrative = Inr doc \<and>
         printed doc =
           [codepoints ''Gitalyzer Report'',
            codepoints (if repo_name \<noteq> [] then repo_name else ''Repository Report''),
            codepoints ''How it helps people'', codepoints ''Page 1'']"
  unfolding build_pdf_empty by (simp add: printed_def)

text \<open>Commands are only ever added to the record.\<close>

lemma grows_update:
  "prefix xs (ops q) \<Longrightarrow> prefix xs (ops (q\<lparr>ypos := v\<rparr>))"
  "prefix xs (ops q) \<Longrightarrow> prefix xs (ops (q\<lparr>font := f\<rparr>))"
  "prefix xs (ops q) \<Longrightarrow> prefix xs (ops (q\<lparr>page := n\<rparr>))"
  by simp_all

lemma grows_if:
  "prefix xs (ops a) \<Longrightarrow> prefix xs (ops b) \<Longrightarrow> prefix xs (ops (if c then a else b))"
  by simp

lemma grows_emit: "prefix xs (ops q) \<Longrightarrow> prefix xs (ops (emit x q))"
  by (simp add: emit_def prefix_def) auto

lemma grows_set_font: "prefix xs (ops q) \<Longrightarrow> prefix xs (ops (set_font a b c q))"
  unfolding set_font_def by (intro grows_emit grows_update)

lemma grows_set_text_color: "prefix xs (ops q) \<Longrightarrow> prefix xs (ops (set_text_color a b c q))"
  unfolding set_text_color_def by (intro grows_emit)

lemma grows_ln: "prefix xs (ops q) \<Longrightarrow> prefix xs (ops (ln h q))"
  unfolding ln_def by (intro grows_emit grows_update)

lemma grows_draw_cell: "prefix xs (ops q) \<Longrightarrow> prefix xs (ops (draw_cell w h t nl al q))"
  unfolding draw_cell_def Let_def by (intro grows_if grows_emit grows_update)

lemma grows_header: "prefix xs (ops q) \<Longrightarrow> prefix xs (ops (header q))"
  unfolding header_def Let_def
  by (intro grows_ln grows_draw_cell grows_set_text_color grows_set_font)

lemma grows_footer: "prefix xs (ops q) \<Longrightarrow> prefix xs (ops (footer q))"
  unfolding footer_def Let_def
  by (intro grows_draw_cell grows_set_text_color grows_set_font grows_emit grows_update)

lemma grows_add_page: "prefix xs (ops q) \<Longrightarrow> prefix xs (ops (add_page q))"
  unfolding add_page_def Let_def
  by (intro grows_update grows_header grows_emit grows_update grows_if grows_footer)
     simp_all

lemma grows_cell: "prefix xs (ops q) \<Longrightarrow> prefix xs (ops (cell w h t nl al q))"
  unfolding cell_def by (intro grows_draw_cell grows_if grows_add_page)

lemma grows_more_lines: "prefix xs (ops q) \<Longrightarrow> prefix xs (ops (more_lines k h q))"
proof (induction k arbitrary: q)
  case 0
  then show ?case by simp
next
  case (Suc k)
  show ?case
    unfolding more_lines.simps Let_def
    by (intro Suc.IH grows_update grows_if grows_add_page Suc.prems)
qed

lemma grows_multi_cell: "prefix xs (ops q) \<Longrightarrow> prefix xs (ops (multi_cell wrap w h t q))"
  unfolding multi_cell_def Let_def
  by (intro grows_more_lines grows_update grows_emit grows_if grows_add_page)


lemma grows_write_section: "prefix xs (ops q) \<Longrightarrow> prefix xs (ops (write_section wrap t b q))"
  by (cases b)
     (auto simp add: write_section_def Let_def
           intro!: grows_ln grows_multi_cell grows_set_text_color grows_set_font)

lemma grows_write_items: "prefix xs (ops q) \<Longrightarrow> prefix xs (ops (write_items wrap items q))"
  by (induction items arbitrary: q) (simp_all add: grows_multi_cell)

lemma grows_write_list: "prefix xs (ops q) \<Longrightarrow> prefix xs (ops (write_list wrap items q))"
  unfolding write_list_def Let_def
  by (intro grows_ln grows_write_items grows_set_text_color grows_set_font)

lemma grows_list_section: "prefix xs (ops q) \<Longrightarrow> prefix xs (ops (list_section wrap t items q))"
  unfolding list_section_def by (intro grows_if grows_write_list grows_write_section)








section \<open>Properties of URL parsing\<close>

lemma split_sep_Nil: "split_sep sep acc [] = [rev acc]"
  by (simp add: split_sep.simps)

lemma split_sep_not_Nil: "split_sep sep acc s \<noteq> []"
  by (induction sep acc s rule: split_sep.induct) (subst split_sep.simps, simp)

text \<open>No occurrence of the separator: one piece.\<close>

lemma split_sep_absent:
  "\<not> sublist sep s \<Longrightarrow> split_sep sep acc s = [rev acc @ s]"
proof (induction s arbitrary: acc)
  case Nil
  then show ?case by (simp add: split_sep.simps)
next
  case (Cons c cs)
  from Cons.prems have np: "\<not> prefix sep (c # cs)" and ns: "\<not> sublist sep cs"
    by (auto simp: sublist_Cons_right)
  show ?case
    using np Cons.IH [OF ns, of "c # acc"] by (subst split_sep.simps) simp
qed

text \<open>A separator whose last character occurs nowhere else in it cannot overlap itself.\<close>

lemma no_overlap:
  assumes sep: "sep \<noteq> []" "last sep \<notin> set (butlast sep)"
    and pre: "prefix sep (pre @ sep @ rest)" "pre \<noteq> []"
  shows "length sep \<le> length pre"
proof (rule ccontr)
  assume "\<not> length sep \<le> length pre"
  then have lt: "length pre < length sep" by simp
  from pre(1) obtain zs where zs: "pre @ sep @ rest = sep @ zs" by (auto simp: prefix_def)
  define k where "k = length sep - 1 - length pre"
  have "0 < length pre" using pre(2) by simp
  with lt have k: "k < length sep - 1" unfolding k_def by arith
  have ge: "\<not> length sep - 1 < length pre" using lt by arith
  have "(pre @ sep @ rest) ! (length sep - 1) = (sep @ rest) ! k"
    using ge by (simp only: nth_append k_def if_False)
  also have "\<dots> = sep ! k"
  proof -
    have "k < length sep" using k by arith
    then show ?thesis by (simp add: nth_append)
  qed
  finally have "(pre @ sep @ rest) ! (length sep - 1) = sep ! k" .
  moreover have "(sep @ zs) ! (length sep - 1) = last sep"
    using sep(1) by (simp add: nth_append last_conv_nth)
  ultimately have "sep ! k = last sep" using zs by simp
  moreover have "sep ! k = butlast sep ! k" using k by (simp add: nth_butlast)
  moreover have "butlast sep ! k \<in> set (butlast sep)" using k by simp
  ultimately show False using sep(2) by simp
qed

lemma split_sep_last:
  assumes sep: "sep \<noteq> []" "last sep \<notin> set (butlast sep)"
    and path: "\<not> sublist sep path"
  shows "last (split_sep sep acc (pre @ sep @ path)) = path"
proof (induction "length pre" arbitrary: pre acc rule: less_induct)
  case less
  let ?s = "pre @ sep @ path"
  have ne: "?s \<noteq> []" using sep(1) by simp
  show ?case
  proof (cases "prefix sep ?s")
    case True
    show ?thesis
    proof (cases "pre = []")
      case True
      then show ?thesis
        using sep(1) split_sep_absent [OF path, of "[]"]
        by (subst split_sep.simps) simp
    next
      case False
      from no_overlap [OF sep True False] have le: "length sep \<le> length pre" .
      from True le have "prefix sep pre"
        by (auto simp: prefix_append)
      then obtain pre' where pre': "pre = sep @ pre'" by (auto simp: prefix_def)
      have "length pre' < length pre" using pre' sep(1) by simp
      from less [OF this] have "last (split_sep sep [] (pre' @ sep @ path)) = path" .
      then show ?thesis
        using True sep(1) pre' split_sep_not_Nil [of sep "[]" "pre' @ sep @ path"]
        by (subst split_sep.simps) simp
    qed
  next
    case False
    then have "pre \<noteq> []" by auto
    then obtain c pre' where pre': "pre = c # pre'" by (cases pre) auto
    have "length pre' < length pre" using pre' by simp
    from less [OF this] have "last (split_sep sep (c # acc) (pre' @ sep @ path)) = path" .
    then show ?thesis using False pre' by (subst split_sep.simps) simp
  qed
qed

text \<open>Splitting at a single character.\<close>

lemma split_sep_char:
  "c \<notin> set a \<Longrightarrow> split_sep [c] acc (a @ c # rest) = (rev acc @ a) # split_sep [c] [] rest"
proof (induction a arbitrary: acc)
  case Nil
  then show ?case by (subst split_sep.simps) simp
next
  case (Cons x xs)
  then show ?case by (subst split_sep.simps) simp
qed

lemma split_sep_char_absent: "c \<notin> set a \<Longrightarrow> split_sep [c] acc a = [rev acc @ a]"
  by (rule split_sep_absent) (auto dest: set_mono_sublist)

lemma rev_dropWhile_rev_keep:
  assumes "Y \<noteq> []" "\<not> P (last Y)"
  shows "\<exists>t. rev (dropWhile P (rev (Y @ e))) = Y @ t \<and> prefix t e"
proof (cases "\<forall>x\<in>set (rev e). P x")
  case True
  have 1: "dropWhile P (rev Y) = rev Y"
    using assms by (cases Y rule: rev_cases) auto
  have 2: "dropWhile P (rev e @ rev Y) = dropWhile P (rev Y)"
  proof (rule dropWhile_append2)
    fix x assume "x \<in> set (rev e)"
    with True show "P x" by blast
  qed
  have "rev (dropWhile P (rev (Y @ e))) = Y @ []"
    by (simp only: rev_append 1 2 rev_rev_ident append_Nil2)
  moreover have "prefix [] e" by simp
  ultimately show ?thesis by (intro exI conjI)
next
  case False
  then obtain x where "x \<in> set (rev e)" "\<not> P x" by blast
  then have 3: "dropWhile P (rev e @ rev Y) = dropWhile P (rev e) @ rev Y"
    by (rule dropWhile_append1)
  have "rev (dropWhile P (rev (Y @ e))) = Y @ rev (dropWhile P (rev e))"
    by (simp only: rev_append 3 rev_rev_ident)
  moreover have "prefix (rev (dropWhile P (rev e))) e"
  proof -
    from suffix_dropWhile [of P "rev e"] obtain zs where "rev e = zs @ dropWhile P (rev e)"
      by (rule suffixE)
    then have "rev (rev e) = rev (zs @ dropWhile P (rev e))" by (rule arg_cong)
    then have "e = rev (dropWhile P (rev e)) @ rev zs" by (simp only: rev_rev_ident rev_append)
    then show ?thesis by (rule prefixI)
  qed
  ultimately show ?thesis by (intro exI conjI)
qed

lemma lstrip_keep:
  assumes "X \<noteq> []" "\<not> is_space (hd X)"
  shows "\<exists>pre'. lstrip (pre @ X) = pre' @ X"
proof (cases "\<forall>x\<in>set pre. is_space x")
  case True
  have 1: "dropWhile is_space X = X" using assms by (cases X) auto
  have 2: "dropWhile is_space (pre @ X) = dropWhile is_space X"
  proof (rule dropWhile_append2)
    fix x assume "x \<in> set pre"
    with True show "is_space x" by blast
  qed
  have "lstrip (pre @ X) = [] @ X" by (simp only: lstrip_def 1 2 append_Nil)
  then show ?thesis by (rule exI)
next
  case False
  then obtain x where "x \<in> set pre" "\<not> is_space x" by blast
  then have "dropWhile is_space (pre @ X) = dropWhile is_space pre @ X"
    by (rule dropWhile_append1)
  then have "lstrip (pre @ X) = dropWhile is_space pre @ X"
    by (simp only: lstrip_def)
  then show ?thesis by (rule exI)
qed

lemma not_space_g: "\<not> is_space CHR ''g''" by (simp add: is_space_def)
lemma not_space_slash: "\<not> is_space CHR ''/''" by (simp add: is_space_def)
lemma not_space_t: "\<not> is_space CHR ''t''" by (simp add: is_space_def)

text \<open>The marker does not occur in \<open>owner/seg\<close> when neither part has a slash and the
  owner does not end in the host name.\<close>

lemma marker_absent:
  assumes "CHR ''/'' \<notin> set owner" "CHR ''/'' \<notin> set seg" "\<not> suffix ''github.com'' owner"
  shows "\<not> sublist ''github.com/'' (owner @ CHR ''/'' # seg)"
proof
  assume "sublist ''github.com/'' (owner @ CHR ''/'' # seg)"
  then obtain a b where "owner @ CHR ''/'' # seg = a @ ''github.com/'' @ b"
    unfolding sublist_def by blast
  then have "owner @ CHR ''/'' # seg = (a @ ''github.com'') @ CHR ''/'' # b" by simp
  with append_Cons_eq_iff [OF assms(1,2), of "a @ ''github.com''" b]
  have "owner = a @ ''github.com''" by blast
  then have "suffix ''github.com'' owner" by (rule suffixI)
  with assms(3) show False by blast
qed

text \<open>What the function computes once the cleaned URL is known.\<close>

lemma parts_of_cleaned:
  assumes "CHR ''/'' \<notin> set owner" "CHR ''/'' \<notin> set seg"
    and "\<not> sublist ''github.com/'' (owner @ CHR ''/'' # seg @ t)"
    and "t = [] \<or> (\<exists>e. t = CHR ''/'' # e)"
  shows "\<exists>rest. split_str ''/'' (last (split_str ''github.com/'' (pre @ ''github.com/'' @ owner @ CHR ''/'' # seg @ t)))
           = owner # seg # rest"
proof -
  have "last (split_str ''github.com/'' (pre @ ''github.com/'' @ (owner @ CHR ''/'' # seg @ t)))
          = owner @ CHR ''/'' # seg @ t"
    unfolding split_str_def by (rule split_sep_last [OF _ _ assms(3)]) simp_all
  moreover have "\<exists>rest. split_str ''/'' (owner @ CHR ''/'' # seg @ t) = owner # seg # rest"
  proof -
    have 1: "split_str ''/'' (owner @ CHR ''/'' # seg @ t) = owner # split_sep ''/'' [] (seg @ t)"
      unfolding split_str_def using split_sep_char [OF assms(1), of "[]" "seg @ t"] by simp
    from assms(4) show ?thesis
    proof
      assume "t = []"
      then show ?thesis using 1 split_sep_char_absent [OF assms(2), of "[]"] by simp
    next
      assume "\<exists>e. t = CHR ''/'' # e"
      then obtain e where "t = CHR ''/'' # e" ..
      then show ?thesis using 1 split_sep_char [OF assms(2), of "[]" e] by simp
    qed
  qed
  ultimately show ?thesis by simp
qed

lemma extract_from_cleaned:
  assumes "sublist ''github.com'' url"
    and "rstrip_chars ''/'' (strip url) = pre @ ''github.com/'' @ owner @ CHR ''/'' # seg @ t"
    and "CHR ''/'' \<notin> set owner" "CHR ''/'' \<notin> set seg"
    and "\<not> sublist ''github.com/'' (owner @ CHR ''/'' # seg @ t)"
    and "t = [] \<or> (\<exists>e. t = CHR ''/'' # e)"
  shows "extract_owner_repo url =
           Inr (owner, if suffix ''.git'' seg then take (length seg - 4) seg else seg)"
proof -
  from parts_of_cleaned [OF assms(3-6), of pre] obtain rest where
    "split_str ''/'' (last (split_str ''github.com/'' (pre @ ''github.com/'' @ owner @ CHR ''/'' # seg @ t)))
       = owner # seg # rest" ..
  then show ?thesis
    unfolding extract_owner_repo_def Let_def assms(2) using assms(1) by simp
qed

lemma rstrip_id: "s \<noteq> [] \<Longrightarrow> \<not> is_space (last s) \<Longrightarrow> rstrip s = s"
  unfolding rstrip_def by (cases s rule: rev_cases) simp_all

lemma rstrip_chars_id: "s \<noteq> [] \<Longrightarrow> last s \<notin> set cs \<Longrightarrow> rstrip_chars cs s = s"
  unfolding rstrip_chars_def by (cases s rule: rev_cases) simp_all

lemma rstrip_chars_snoc: "c \<in> set cs \<Longrightarrow> rstrip_chars cs (s @ [c]) = rstrip_chars cs s"
  unfolding rstrip_chars_def by simp

lemma sublist_host: "sublist ''github.com'' (pre @ ''github.com/'' @ rest)"
proof -
  have "pre @ ''github.com/'' @ rest = pre @ ''github.com'' @ (CHR ''/'' # rest)" by simp
  then show ?thesis unfolding sublist_def by (intro exI)
qed

lemma cleaned_plain:
  assumes "seg \<noteq> []" "CHR ''/'' \<notin> set seg" "\<not> is_space (last seg)"
    and "slash = [] \<or> slash = ''/''"
  shows "\<exists>pre'. rstrip_chars ''/'' (strip (pre @ ''github.com/'' @ owner @ CHR ''/'' # seg @ slash))
           = pre' @ ''github.com/'' @ owner @ CHR ''/'' # seg @ []"
proof -
  let ?X = "''github.com/'' @ owner @ CHR ''/'' # seg"
  have "\<exists>pre'. lstrip (pre @ (?X @ slash)) = pre' @ (?X @ slash)"
    by (rule lstrip_keep) (simp_all add: not_space_g)
  then obtain pre' where l: "lstrip (pre @ ?X @ slash) = pre' @ ?X @ slash" by auto
  have lastX: "last (pre' @ ?X) = last seg" using assms(1) by simp
  have ns: "last seg \<noteq> CHR ''/''" using assms(1,2) last_in_set by metis
  have ne: "pre' @ ?X \<noteq> []" by simp
  have nsp: "\<not> is_space (last (pre' @ ?X))" unfolding lastX by (rule assms(3))
  have nsl: "last (pre' @ ?X) \<notin> set ''/''" unfolding lastX using ns by simp
  from assms(4) have "rstrip_chars ''/'' (rstrip (pre' @ ?X @ slash)) = pre' @ ?X"
  proof
    assume s: "slash = []"
    have "rstrip (pre' @ ?X) = pre' @ ?X"
      using ne nsp by (rule rstrip_id)
    moreover have "rstrip_chars ''/'' (pre' @ ?X) = pre' @ ?X"
      using ne nsl by (rule rstrip_chars_id)
    ultimately show ?thesis using s by simp
  next
    assume s: "slash = ''/''"
    have "rstrip ((pre' @ ?X) @ ''/'') = (pre' @ ?X) @ ''/''"
      by (rule rstrip_id) (simp_all add: not_space_slash)
    moreover have "rstrip_chars ''/'' ((pre' @ ?X) @ ''/'') = rstrip_chars ''/'' (pre' @ ?X)"
      by (rule rstrip_chars_snoc) simp
    moreover have "rstrip_chars ''/'' (pre' @ ?X) = pre' @ ?X"
      using ne nsl by (rule rstrip_chars_id)
    ultimately show ?thesis using s by simp
  qed
  then have "rstrip_chars ''/'' (strip (pre @ ?X @ slash)) = pre' @ ?X"
    unfolding strip_def l .
  then show ?thesis by simp
qed

text \<open>
  C5. Let \<open>owner\<close> and \<open>repo\<close> be repository slugs: neither contains a slash, the owner does
  not end in the host name \<open>github.com\<close> (so that the marker \<open>github.com/\<close> occurs only at
  the host), and the repository name is not empty, does not end in white space and does
  not itself end in \<open>.git\<close>. Then every variant of the URL, with any scheme prefix (or
  none), with or without the suffix \<open>.git\<close>, with or without a trailing slash, is parsed
  to the same pair \<open>(owner, repo)\<close>.
\<close>

theorem extract_owner_repo_url_variants:
  assumes "CHR ''/'' \<notin> set owner" "\<not> suffix ''github.com'' owner"
    and "repo \<noteq> []" "CHR ''/'' \<notin> set repo" "\<not> is_space (last repo)" "\<not> suffix ''.git'' repo"
    and "git = [] \<or> git = ''.git''" "slash = [] \<or> slash = ''/''"
  shows "extract_owner_repo (scheme @ ''github.com/'' @ owner @ ''/'' @ repo @ git @ slash)
           = Inr (owner, repo)"
proof -
  let ?seg = "repo @ git"
  let ?url = "scheme @ ''github.com/'' @ owner @ CHR ''/'' # ?seg @ slash"
  have seg: "?seg \<noteq> []" "CHR ''/'' \<notin> set ?seg"
    using assms(3,4,7) by auto
  have sp: "\<not> is_space (last ?seg)"
    using assms(3,5,7) by (auto simp: not_space_t)
  from cleaned_plain [OF seg sp assms(8), of scheme owner] obtain pre' where
    c: "rstrip_chars ''/'' (strip ?url) = pre' @ ''github.com/'' @ owner @ CHR ''/'' # ?seg @ []" ..
  have m: "\<not> sublist ''github.com/'' (owner @ CHR ''/'' # ?seg @ [])"
    using marker_absent [OF assms(1) seg(2) assms(2)] by simp
  have h: "sublist ''github.com'' ?url" by (rule sublist_host)
  have "extract_owner_repo ?url =
          Inr (owner, if suffix ''.git'' ?seg then take (length ?seg - 4) ?seg else ?seg)"
    by (rule extract_from_cleaned [OF h c assms(1) seg(2) m]) simp
  moreover have "(if suffix ''.git'' ?seg then take (length ?seg - 4) ?seg else ?seg) = repo"
  proof -
    have "suffix ''.git'' (repo @ ''.git'')" by (rule suffixI) (rule refl)
    then show ?thesis using assms(6,7) by auto
  qed
  ultimately show ?thesis by simp
qed

theorem extract_owner_repo_url_variants_witness:
  "extract_owner_repo ''https://github.com/abez123/gitalyzer.git/'' = Inr (''abez123'', ''gitalyzer'') \<and>
   extract_owner_repo ''github.com/abez123/gitalyzer'' = Inr (''abez123'', ''gitalyzer'')"
proof -
  have h: "CHR ''/'' \<notin> set ''abez123''" "\<not> suffix ''github.com'' ''abez123''"
    "''gitalyzer'' \<noteq> []" "CHR ''/'' \<notin> set ''gitalyzer''" "\<not> is_space (last ''gitalyzer'')"
    "\<not> suffix ''.git'' ''gitalyzer''"
    by (simp_all add: is_space_def suffix_to_prefix)
  have g: "''.git'' = [] \<or> ''.git'' = ''.git''" "''/'' = [] \<or> ''/'' = ''/''"
     "([]::string) = [] \<or> ([]::string) = ''.git''" "([]::string) = [] \<or> ([]::string) = ''/''" by simp_all
  show ?thesis
    using extract_owner_repo_url_variants [OF h g(1,2), of "''https://''"]
      extract_owner_repo_url_variants [OF h g(3,4), of "[]"]
    by simp
qed

text \<open>
  C9. For a URL \<open>... github.com/owner/repo/extra\<close>, where \<open>owner\<close> and \<open>repo\<close> are segments
  (no slash), \<open>repo\<close> is not empty and this is the last occurrence of the marker
  \<open>github.com/\<close> (it does not occur in \<open>owner/repo/extra\<close>), parsing succeeds; everything
  after the second segment is ignored, whatever it is. The result is the owner and the
  second segment with a trailing \<open>.git\<close> removed: it is \<open>(owner, repo)\<close> only when \<open>repo\<close> does
  not end in \<open>.git\<close>.
\<close>

theorem extract_owner_repo_extra_segments:
  assumes "CHR ''/'' \<notin> set owner" "CHR ''/'' \<notin> set repo" "repo \<noteq> []"
    and "\<not> sublist ''github.com/'' (owner @ ''/'' @ repo @ ''/'' @ extra)"
  shows "extract_owner_repo (pre @ ''github.com/'' @ owner @ ''/'' @ repo @ ''/'' @ extra)
           = Inr (owner, if suffix ''.git'' repo then take (length repo - 4) repo else repo)"
proof -
  let ?X = "''github.com/'' @ owner @ CHR ''/'' # repo"
  let ?url = "pre @ ''github.com/'' @ owner @ CHR ''/'' # repo @ CHR ''/'' # extra"
  have "\<exists>pre'. lstrip (pre @ (?X @ CHR ''/'' # extra)) = pre' @ (?X @ CHR ''/'' # extra)"
    by (rule lstrip_keep) (simp_all add: not_space_g)
  then obtain pre' where l: "lstrip ?url = pre' @ ?X @ CHR ''/'' # extra" by auto
  have "\<exists>t. rev (dropWhile is_space (rev ((pre' @ ?X @ ''/'') @ extra))) = (pre' @ ?X @ ''/'') @ t \<and> prefix t extra"
    by (rule rev_dropWhile_rev_keep) (simp_all add: not_space_slash)
  then obtain t1 where r: "rstrip (pre' @ ?X @ CHR ''/'' # extra) = pre' @ ?X @ CHR ''/'' # t1"
    and p1: "prefix t1 extra" unfolding rstrip_def by auto
  have ns: "last repo \<noteq> CHR ''/''" using assms(2,3) last_in_set by metis
  have "\<exists>t. rev (dropWhile (\<lambda>c. c \<in> set ''/'') (rev ((pre' @ ?X) @ CHR ''/'' # t1))) = (pre' @ ?X) @ t
          \<and> prefix t (CHR ''/'' # t1)"
    by (rule rev_dropWhile_rev_keep) (use assms(3) ns in simp_all)
  then obtain t where c: "rstrip_chars ''/'' (pre' @ ?X @ CHR ''/'' # t1) = pre' @ ?X @ t"
    and p: "prefix t (CHR ''/'' # t1)" unfolding rstrip_chars_def by auto
  have cleaned: "rstrip_chars ''/'' (strip ?url) = pre' @ ''github.com/'' @ owner @ CHR ''/'' # repo @ t"
    using l r c by (simp add: strip_def)
  have shape: "t = [] \<or> (\<exists>e. t = CHR ''/'' # e)"
    using p by (cases t) auto
  have "prefix t (CHR ''/'' # extra)"
    using p p1 by (cases t) auto
  then obtain u where u: "CHR ''/'' # extra = t @ u" by (auto simp: prefix_def)
  have m: "\<not> sublist ''github.com/'' (owner @ CHR ''/'' # repo @ t)"
  proof
    assume "sublist ''github.com/'' (owner @ CHR ''/'' # repo @ t)"
    then obtain a b where "owner @ CHR ''/'' # repo @ t = a @ ''github.com/'' @ b"
      unfolding sublist_def by blast
    then have "(owner @ CHR ''/'' # repo @ t) @ u = a @ ''github.com/'' @ (b @ u)" by simp
    then have "owner @ ''/'' @ repo @ ''/'' @ extra = a @ ''github.com/'' @ (b @ u)"
      using u by simp
    then have "sublist ''github.com/'' (owner @ ''/'' @ repo @ ''/'' @ extra)"
      unfolding sublist_def by (intro exI)
    with assms(4) show False by blast
  qed
  have h: "sublist ''github.com'' ?url" by (rule sublist_host)
  have "extract_owner_repo ?url =
          Inr (owner, if suffix ''.git'' repo then take (length repo - 4) repo else repo)"
    by (rule extract_from_cleaned [OF h cleaned assms(1,2) m shape])
  then show ?thesis by simp
qed

theorem extract_owner_repo_extra_segments_witness:
  "extract_owner_repo ''https://github.com/abez123/gitalyzer/tree/main'' = Inr (''abez123'', ''gitalyzer'')"
proof -
  have h: "CHR ''/'' \<notin> set ''abez123''" "CHR ''/'' \<notin> set ''gitalyzer''" "''gitalyzer'' \<noteq> []"
    "\<not> sublist ''github.com/'' (''abez123'' @ ''/'' @ ''gitalyzer'' @ ''/'' @ ''tree/main'')"
    by (simp_all add: sublist_code)
  have s: "\<not> suffix ''.git'' ''gitalyzer''" by (simp add: suffix_to_prefix)
  show ?thesis
    using extract_owner_repo_extra_segments [OF h, of "''https://''"] s by simp
qed

text \<open>C9, for a second segment that ends in \<open>.git\<close> and is followed by further segments:
  the repository returned is not the second segment.\<close>

theorem extract_owner_repo_git_segment_counterexample:
  "extract_owner_repo ''https://github.com/o/r.git/tree/main'' = Inr (''o'', ''r'') \<and>
   (''o'', ''r'') \<noteq> (''o'', ''r.git'')"
  by code_simp

section \<open>Properties of the snapshot fetch\<close>

lemma and_then_Inl: "and_then (Inl e) f = Inl e"
  by (simp add: and_then_def)

lemma and_then_Inr: "and_then (Inr x) f = f x"
  by (simp add: and_then_def)

lemma and_then_eq_Inr: "and_then r f = Inr y \<longleftrightarrow> (\<exists>x. r = Inr x \<and> f x = Inr y)"
  by (cases r) (simp_all add: and_then_def)

lemma py_get_obj:
  "py_get (JObj kvs) k d = Inr (case map_of kvs k of Some v \<Rightarrow> v | None \<Rightarrow> d)"
  by (simp add: py_get_def split: option.split)

lemma py_get_not_obj: "\<not> (\<exists>kvs. x = JObj kvs) \<Longrightarrow> py_get x k d = Inl AttributeError"
  by (cases x) (simp_all add: py_get_def)

text \<open>A successful snapshot has the three facets under their keys; the other keys do not
  depend on the facets.\<close>

lemma snapshot_dict_facets:
  assumes "snapshot_dict rd l rt cs = Inr s"
  shows "\<exists>s'. snapshot_dict rd l' rt' cs' = Inr s' \<and>
           (\<forall>k. py_get s' k JNull =
              (if k = ''languages'' then Inr l'
               else if k = ''recent_commits'' then Inr (JArr cs')
               else if k = ''readme_excerpt'' then Inr (JStr (take 4000 rt'))
               else py_get s k JNull))"
proof (cases "\<exists>kvs. rd = JObj kvs")
  case False
  then have "py_get rd ''topics'' (JArr []) = Inl AttributeError"
    by (rule py_get_not_obj)
  then have "snapshot_dict rd l rt cs = Inl AttributeError"
    unfolding snapshot_dict_def by (simp only: and_then_Inl)
  with assms show ?thesis by simp
next
  case True
  then obtain kvs where rd: "rd = JObj kvs" ..
  define lic where "lic = or_empty_get (case map_of kvs ''license'' of Some v \<Rightarrow> v | None \<Rightarrow> JNull) ''name''"
  have unf: "\<And>l rt cs. snapshot_dict rd l rt cs =
     and_then lic (\<lambda>license_v. Inr (JObj
            [(''name'', case map_of kvs ''name'' of Some v \<Rightarrow> v | None \<Rightarrow> JNull),
             (''full_name'', case map_of kvs ''full_name'' of Some v \<Rightarrow> v | None \<Rightarrow> JNull),
             (''description'', case map_of kvs ''description'' of Some v \<Rightarrow> v | None \<Rightarrow> JNull),
             (''html_url'', case map_of kvs ''html_url'' of Some v \<Rightarrow> v | None \<Rightarrow> JNull),
             (''default_branch'', case map_of kvs ''default_branch'' of Some v \<Rightarrow> v | None \<Rightarrow> JNull),
             (''license'', license_v),
             (''stars'', case map_of kvs ''stargazers_count'' of Some v \<Rightarrow> v | None \<Rightarrow> JInt 0),
             (''forks'', case map_of kvs ''forks_count'' of Some v \<Rightarrow> v | None \<Rightarrow> JInt 0),
             (''open_issues'', case map_of kvs ''open_issues_count'' of Some v \<Rightarrow> v | None \<Rightarrow> JInt 0),
             (''watchers'', case map_of kvs ''subscribers_count'' of Some v \<Rightarrow> v | None \<Rightarrow> JInt 0),
             (''language'', case map_of kvs ''language'' of Some v \<Rightarrow> v | None \<Rightarrow> JNull),
             (''topics'', case map_of kvs ''topics'' of Some v \<Rightarrow> v | None \<Rightarrow> JArr []),
             (''languages'', l), (''recent_commits'', JArr cs),
             (''readme_excerpt'', JStr (take 4000 rt))]))"
    unfolding snapshot_dict_def rd lic_def by (simp only: py_get_obj and_then_Inr)
  from assms obtain lv where lv: "lic = Inr lv"
    unfolding unf by (cases lic) (simp_all add: and_then_Inl)
  define pre where "pre =
            [(''name'', case map_of kvs ''name'' of Some v \<Rightarrow> v | None \<Rightarrow> JNull),
             (''full_name'', case map_of kvs ''full_name'' of Some v \<Rightarrow> v | None \<Rightarrow> JNull),
             (''description'', case map_of kvs ''description'' of Some v \<Rightarrow> v | None \<Rightarrow> JNull),
             (''html_url'', case map_of kvs ''html_url'' of Some v \<Rightarrow> v | None \<Rightarrow> JNull),
             (''default_branch'', case map_of kvs ''default_branch'' of Some v \<Rightarrow> v | None \<Rightarrow> JNull),
             (''license'', lv),
             (''stars'', case map_of kvs ''stargazers_count'' of Some v \<Rightarrow> v | None \<Rightarrow> JInt 0),
             (''forks'', case map_of kvs ''forks_count'' of Some v \<Rightarrow> v | None \<Rightarrow> JInt 0),
             (''open_issues'', case map_of kvs ''open_issues_count'' of Some v \<Rightarrow> v | None \<Rightarrow> JInt 0),
             (''watchers'', case map_of kvs ''subscribers_count'' of Some v \<Rightarrow> v | None \<Rightarrow> JInt 0),
             (''language'', case map_of kvs ''language'' of Some v \<Rightarrow> v | None \<Rightarrow> JNull),
             (''topics'', case map_of kvs ''topics'' of Some v \<Rightarrow> v | None \<Rightarrow> JArr [])]"
  have res: "\<And>l rt cs. snapshot_dict rd l rt cs =
      Inr (JObj (pre @ [(''languages'', l), (''recent_commits'', JArr cs),
                        (''readme_excerpt'', JStr (take 4000 rt))]))"
    unfolding unf lv and_then_Inr pre_def by simp
  have none: "map_of pre ''languages'' = None" "map_of pre ''recent_commits'' = None"
    "map_of pre ''readme_excerpt'' = None"
    unfolding pre_def by simp_all
  have s: "s = JObj (pre @ [(''languages'', l), (''recent_commits'', JArr cs),
                        (''readme_excerpt'', JStr (take 4000 rt))])"
    using assms unfolding res by simp
  have key: "py_get (JObj (pre @ [(''languages'', l'), (''recent_commits'', JArr cs'),
                        (''readme_excerpt'', JStr (take 4000 rt'))])) k JNull =
              (if k = ''languages'' then Inr l'
               else if k = ''recent_commits'' then Inr (JArr cs')
               else if k = ''readme_excerpt'' then Inr (JStr (take 4000 rt'))
               else py_get s k JNull)" for k
  proof -
    consider "k = ''languages''" | "k = ''recent_commits''" | "k = ''readme_excerpt''"
      | "k \<noteq> ''languages''" "k \<noteq> ''recent_commits''" "k \<noteq> ''readme_excerpt''"
      by blast
    then show ?thesis
    proof cases
      case 1
      then show ?thesis by (simp add: py_get_obj map_add_def none)
    next
      case 2
      then show ?thesis by (simp add: py_get_obj map_add_def none)
    next
      case 3
      then show ?thesis by (simp add: py_get_obj map_add_def none)
    next
      case 4
      then show ?thesis unfolding s by (cases "map_of pre k") (simp_all add: py_get_obj map_add_def)
    qed
  qed
  show ?thesis
    unfolding res by (simp add: key)
qed

lemma endpoints_distinct:
  "repo_endpoint owner repo @ ''/languages'' \<noteq> repo_endpoint owner repo"
  "repo_endpoint owner repo @ ''/readme'' \<noteq> repo_endpoint owner repo"
  "repo_endpoint owner repo @ ''/commits?per_page=5'' \<noteq> repo_endpoint owner repo"
  "repo_endpoint owner repo \<noteq> repo_endpoint owner repo @ ''/languages''"
  "repo_endpoint owner repo \<noteq> repo_endpoint owner repo @ ''/readme''"
  "repo_endpoint owner repo \<noteq> repo_endpoint owner repo @ ''/commits?per_page=5''"
  "repo_endpoint owner repo @ ''/languages'' \<noteq> repo_endpoint owner repo @ ''/readme''"
  "repo_endpoint owner repo @ ''/languages'' \<noteq> repo_endpoint owner repo @ ''/commits?per_page=5''"
  "repo_endpoint owner repo @ ''/readme'' \<noteq> repo_endpoint owner repo @ ''/languages''"
  "repo_endpoint owner repo @ ''/readme'' \<noteq> repo_endpoint owner repo @ ''/commits?per_page=5''"
  "repo_endpoint owner repo @ ''/commits?per_page=5'' \<noteq> repo_endpoint owner repo @ ''/languages''"
  "repo_endpoint owner repo @ ''/commits?per_page=5'' \<noteq> repo_endpoint owner repo @ ''/readme''"
  by simp_all

text \<open>A successful fetch: what each step delivered.\<close>

lemma fetch_Inr_iff:
  "fetch_repository_snapshot client b64text owner repo = Inr s \<longleftrightarrow>
     status_code (client (repo_endpoint owner repo)) = 200 \<and>
     (\<exists>rd l rt cs.
        resp_json (client (repo_endpoint owner repo)) = Inr rd \<and>
        (if status_code (client (repo_endpoint owner repo @ ''/languages'')) = 200
         then resp_json (client (repo_endpoint owner repo @ ''/languages''))
         else Inr (JObj [])) = Inr l \<and>
        (if status_code (client (repo_endpoint owner repo @ ''/readme'')) = 200
         then and_then (resp_json (client (repo_endpoint owner repo @ ''/readme'')))
                (readme_of_payload b64text)
         else Inr []) = Inr rt \<and>
        (if status_code (client (repo_endpoint owner repo @ ''/commits?per_page=5'')) = 200
         then and_then (resp_json (client (repo_endpoint owner repo @ ''/commits?per_page=5'')))
                (\<lambda>j. and_then (py_iter j) (\<lambda>items. collect_commits items []))
         else Inr []) = Inr cs \<and>
        snapshot_dict rd l rt cs = Inr s)"
  unfolding fetch_repository_snapshot_def Let_def
  by (simp only: and_then_eq_Inr if_split [where P = "\<lambda>x. x = Inr s"] simp_thms sum.simps) blast

lemma snapshot_dict_keys:
  assumes "snapshot_dict rd l rt cs = Inr s"
  shows "py_get s ''languages'' JNull = Inr l"
    and "py_get s ''recent_commits'' JNull = Inr (JArr cs)"
    and "py_get s ''readme_excerpt'' JNull = Inr (JStr (take 4000 rt))"
proof -
  from snapshot_dict_facets [OF assms, of l rt cs] obtain s' where
    "snapshot_dict rd l rt cs = Inr s'" and
    k: "\<And>k. py_get s' k JNull =
              (if k = ''languages'' then Inr l
               else if k = ''recent_commits'' then Inr (JArr cs)
               else if k = ''readme_excerpt'' then Inr (JStr (take 4000 rt))
               else py_get s k JNull)" by blast
  with assms have "s' = s" by simp
  with k [of "''languages''"] show "py_get s ''languages'' JNull = Inr l" by simp
  from \<open>s' = s\<close> k [of "''recent_commits''"] show "py_get s ''recent_commits'' JNull = Inr (JArr cs)" by simp
  from \<open>s' = s\<close> k [of "''readme_excerpt''"] show "py_get s ''readme_excerpt'' JNull = Inr (JStr (take 4000 rt))" by simp
qed

lemma snapshot_dict_change:
  assumes "snapshot_dict rd l rt cs = Inr s"
  shows "\<exists>s'. snapshot_dict rd l' rt' cs' = Inr s' \<and>
           py_get s' ''languages'' JNull = Inr l' \<and>
           py_get s' ''recent_commits'' JNull = Inr (JArr cs') \<and>
           py_get s' ''readme_excerpt'' JNull = Inr (JStr (take 4000 rt')) \<and>
           (\<forall>k. k \<noteq> ''languages'' \<and> k \<noteq> ''recent_commits'' \<and> k \<noteq> ''readme_excerpt'' \<longrightarrow>
                py_get s' k JNull = py_get s k JNull)"
proof -
  from snapshot_dict_facets [OF assms, of l' rt' cs'] obtain s' where
    s': "snapshot_dict rd l' rt' cs' = Inr s'" and
    k: "\<And>k. py_get s' k JNull =
              (if k = ''languages'' then Inr l'
               else if k = ''recent_commits'' then Inr (JArr cs')
               else if k = ''readme_excerpt'' then Inr (JStr (take 4000 rt'))
               else py_get s k JNull)" by blast
  have "\<forall>k. k \<noteq> ''languages'' \<and> k \<noteq> ''recent_commits'' \<and> k \<noteq> ''readme_excerpt'' \<longrightarrow>
                py_get s' k JNull = py_get s k JNull" using k by simp
  with s' snapshot_dict_keys [OF s'] show ?thesis by (intro exI conjI)
qed

text \<open>
  C4. (1) When the repository-metadata call answers with a status other than 200, the
  fetch raises \<open>GitHubAPIError\<close> whose message carries the status code and the response
  body. (2)-(4) When the languages, README or commits call answers with a status other
  than 200, that call cannot make the fetch fail: if the fetch succeeds with any response
  \<open>r\<close> in place of the failed one, it succeeds with the failed one too, the facet of the
  snapshot is the empty mapping, the empty string or the empty sequence respectively,
  and every other key of the snapshot is as before.
\<close>

theorem fetch_facets_degrade:
  "(status_code (client (repo_endpoint owner repo)) \<noteq> 200 \<longrightarrow>
      fetch_repository_snapshot client b64text owner repo =
        Inl (GitHubAPIError (''Unable to retrieve repository: ''
               @ str_nat (status_code (client (repo_endpoint owner repo)))
               @ '' '' @ text (client (repo_endpoint owner repo))))) \<and>
   (\<forall>r s. status_code (client (repo_endpoint owner repo @ ''/languages'')) \<noteq> 200 \<and>
      fetch_repository_snapshot (client(repo_endpoint owner repo @ ''/languages'' := r))
        b64text owner repo = Inr s \<longrightarrow>
      (\<exists>s'. fetch_repository_snapshot client b64text owner repo = Inr s' \<and>
            py_get s' ''languages'' JNull = Inr (JObj []) \<and>
            (\<forall>k. k \<noteq> ''languages'' \<longrightarrow> py_get s' k JNull = py_get s k JNull))) \<and>
   (\<forall>r s. status_code (client (repo_endpoint owner repo @ ''/readme'')) \<noteq> 200 \<and>
      fetch_repository_snapshot (client(repo_endpoint owner repo @ ''/readme'' := r))
        b64text owner repo = Inr s \<longrightarrow>
      (\<exists>s'. fetch_repository_snapshot client b64text owner repo = Inr s' \<and>
            py_get s' ''readme_excerpt'' JNull = Inr (JStr []) \<and>
            (\<forall>k. k \<noteq> ''readme_excerpt'' \<longrightarrow> py_get s' k JNull = py_get s k JNull))) \<and>
   (\<forall>r s. status_code (client (repo_endpoint owner repo @ ''/commits?per_page=5'')) \<noteq> 200 \<and>
      fetch_repository_snapshot (client(repo_endpoint owner repo @ ''/commits?per_page=5'' := r))
        b64text owner repo = Inr s \<longrightarrow>
      (\<exists>s'. fetch_repository_snapshot client b64text owner repo = Inr s' \<and>
            py_get s' ''recent_commits'' JNull = Inr (JArr []) \<and>
            (\<forall>k. k \<noteq> ''recent_commits'' \<longrightarrow> py_get s' k JNull = py_get s k JNull)))"
proof (intro conjI allI impI)
  assume "status_code (client (repo_endpoint owner repo)) \<noteq> 200"
  then show "fetch_repository_snapshot client b64text owner repo =
        Inl (GitHubAPIError (''Unable to retrieve repository: ''
               @ str_nat (status_code (client (repo_endpoint owner repo)))
               @ '' '' @ text (client (repo_endpoint owner repo))))"
    unfolding fetch_repository_snapshot_def Let_def by simp
next
  fix r s
  let ?u = "repo_endpoint owner repo @ ''/languages''"
  assume a: "status_code (client ?u) \<noteq> 200 \<and>
      fetch_repository_snapshot (client(?u := r)) b64text owner repo = Inr s"
  then obtain rd l rt cs where
    st: "status_code (client (repo_endpoint owner repo)) = 200" and
    rd: "resp_json (client (repo_endpoint owner repo)) = Inr rd" and
    rt: "(if status_code (client (repo_endpoint owner repo @ ''/readme'')) = 200
         then and_then (resp_json (client (repo_endpoint owner repo @ ''/readme'')))
                (readme_of_payload b64text)
         else Inr []) = Inr rt" and
    cs: "(if status_code (client (repo_endpoint owner repo @ ''/commits?per_page=5'')) = 200
         then and_then (resp_json (client (repo_endpoint owner repo @ ''/commits?per_page=5'')))
                (\<lambda>j. and_then (py_iter j) (\<lambda>items. collect_commits items []))
         else Inr []) = Inr cs" and
    sd: "snapshot_dict rd l rt cs = Inr s"
    unfolding fetch_Inr_iff by (simp only: fun_upd_apply endpoints_distinct if_False) blast
  from snapshot_dict_change [OF sd, of "JObj []" rt cs] obtain s' where
    s': "snapshot_dict rd (JObj []) rt cs = Inr s'" and
    f: "py_get s' ''languages'' JNull = Inr (JObj [])" and
    c: "py_get s' ''recent_commits'' JNull = Inr (JArr cs)" and
    e: "py_get s' ''readme_excerpt'' JNull = Inr (JStr (take 4000 rt))" and
    o: "\<And>k. k \<noteq> ''languages'' \<and> k \<noteq> ''recent_commits'' \<and> k \<noteq> ''readme_excerpt'' \<Longrightarrow>
                py_get s' k JNull = py_get s k JNull" by blast
  have "fetch_repository_snapshot client b64text owner repo = Inr s'"
    unfolding fetch_Inr_iff using a st rd rt cs s' by auto
  moreover have "\<forall>k. k \<noteq> ''languages'' \<longrightarrow> py_get s' k JNull = py_get s k JNull"
    using o c e snapshot_dict_keys [OF sd] by metis
  ultimately show "\<exists>s'. fetch_repository_snapshot client b64text owner repo = Inr s' \<and>
            py_get s' ''languages'' JNull = Inr (JObj []) \<and>
            (\<forall>k. k \<noteq> ''languages'' \<longrightarrow> py_get s' k JNull = py_get s k JNull)"
    using f by (intro exI conjI)
next
  fix r s
  let ?u = "repo_endpoint owner repo @ ''/readme''"
  assume a: "status_code (client ?u) \<noteq> 200 \<and>
      fetch_repository_snapshot (client(?u := r)) b64text owner repo = Inr s"
  then obtain rd l rt cs where
    st: "status_code (client (repo_endpoint owner repo)) = 200" and
    rd: "resp_json (client (repo_endpoint owner repo)) = Inr rd" and
    l: "(if status_code (client (repo_endpoint owner repo @ ''/languages'')) = 200
         then resp_json (client (repo_endpoint owner repo @ ''/languages''))
         else Inr (JObj [])) = Inr l" and
    cs: "(if status_code (client (repo_endpoint owner repo @ ''/commits?per_page=5'')) = 200
         then and_then (resp_json (client (repo_endpoint owner repo @ ''/commits?per_page=5'')))
                (\<lambda>j. and_then (py_iter j) (\<lambda>items. collect_commits items []))
         else Inr []) = Inr cs" and
    sd: "snapshot_dict rd l rt cs = Inr s"
    unfolding fetch_Inr_iff by (simp only: fun_upd_apply endpoints_distinct if_False) blast
  from snapshot_dict_change [OF sd, of l "[]" cs] obtain s' where
    s': "snapshot_dict rd l [] cs = Inr s'" and
    f: "py_get s' ''languages'' JNull = Inr l" and
    c: "py_get s' ''recent_commits'' JNull = Inr (JArr cs)" and
    e: "py_get s' ''readme_excerpt'' JNull = Inr (JStr (take 4000 []))" and
    o: "\<And>k. k \<noteq> ''languages'' \<and> k \<noteq> ''recent_commits'' \<and> k \<noteq> ''readme_excerpt'' \<Longrightarrow>
                py_get s' k JNull = py_get s k JNull" by blast
  have "fetch_repository_snapshot client b64text owner repo = Inr s'"
    unfolding fetch_Inr_iff using a st rd l cs s' by auto
  moreover have "\<forall>k. k \<noteq> ''readme_excerpt'' \<longrightarrow> py_get s' k JNull = py_get s k JNull"
    using o c f snapshot_dict_keys [OF sd] by metis
  moreover have "py_get s' ''readme_excerpt'' JNull = Inr (JStr [])" using e by simp
  ultimately show "\<exists>s'. fetch_repository_snapshot client b64text owner repo = Inr s' \<and>
            py_get s' ''readme_excerpt'' JNull = Inr (JStr []) \<and>
            (\<forall>k. k \<noteq> ''readme_excerpt'' \<longrightarrow> py_get s' k JNull = py_get s k JNull)"
    by (intro exI conjI)
next
  fix r s
  let ?u = "repo_endpoint owner repo @ ''/commits?per_page=5''"
  assume a: "status_code (client ?u) \<noteq> 200 \<and>
      fetch_repository_snapshot (client(?u := r)) b64text owner repo = Inr s"
  then obtain rd l rt cs where
    st: "status_code (client (repo_endpoint owner repo)) = 200" and
    rd: "resp_json (client (repo_endpoint owner repo)) = Inr rd" and
    l: "(if status_code (client (repo_endpoint owner repo @ ''/languages'')) = 200
         then resp_json (client (repo_endpoint owner repo @ ''/languages''))
         else Inr (JObj [])) = Inr l" and
    rt: "(if status_code (client (repo_endpoint owner repo @ ''/readme'')) = 200
         then and_then (resp_json (client (repo_endpoint owner repo @ ''/readme'')))
                (readme_of_payload b64text)
         else Inr []) = Inr rt" and
    sd: "snapshot_dict rd l rt cs = Inr s"
    unfolding fetch_Inr_iff by (simp only: fun_upd_apply endpoints_distinct if_False) blast
  from snapshot_dict_change [OF sd, of l rt "[]"] obtain s' where
    s': "snapshot_dict rd l rt [] = Inr s'" and
    f: "py_get s' ''languages'' JNull = Inr l" and
    c: "py_get s' ''recent_commits'' JNull = Inr (JArr [])" and
    e: "py_get s' ''readme_excerpt'' JNull = Inr (JStr (take 4000 rt))" and
    o: "\<And>k. k \<noteq> ''languages'' \<and> k \<noteq> ''recent_commits'' \<and> k \<noteq> ''readme_excerpt'' \<Longrightarrow>
                py_get s' k JNull = py_get s k JNull" by blast
  have "fetch_repository_snapshot client b64text owner repo = Inr s'"
    unfolding fetch_Inr_iff using a st rd l rt s' by auto
  moreover have "\<forall>k. k \<noteq> ''recent_commits'' \<longrightarrow> py_get s' k JNull = py_get s k JNull"
    using o e f snapshot_dict_keys [OF sd] by metis
  ultimately show "\<exists>s'. fetch_repository_snapshot client b64text owner repo = Inr s' \<and>
            py_get s' ''recent_commits'' JNull = Inr (JArr []) \<and>
            (\<forall>k. k \<noteq> ''recent_commits'' \<longrightarrow> py_get s' k JNull = py_get s k JNull)"
    using c by (intro exI conjI)
qed

theorem fetch_facets_degrade_witness:
  "fetch_repository_snapshot
     (\<lambda>u. \<lparr>status_code = 404, text = ''Not Found'', json_body = None\<rparr>)
     (\<lambda>s. None) ''abez123'' ''gitalyzer''
     = Inl (GitHubAPIError ''Unable to retrieve repository: 404 Not Found'') \<and>
   (\<exists>s'. fetch_repository_snapshot
       (\<lambda>u. if u = repo_endpoint ''abez123'' ''gitalyzer''
            then \<lparr>status_code = 200, text = ''{}'', json_body = Some (JObj [])\<rparr>
            else \<lparr>status_code = 404, text = ''Not Found'', json_body = None\<rparr>)
       (\<lambda>s. None) ''abez123'' ''gitalyzer'' = Inr s' \<and>
      py_get s' ''languages'' JNull = Inr (JObj []) \<and>
      py_get s' ''readme_excerpt'' JNull = Inr (JStr []) \<and>
      py_get s' ''recent_commits'' JNull = Inr (JArr []))"
proof -
  let ?nf = "\<lparr>status_code = 404, text = ''Not Found'', json_body = None\<rparr>"
  let ?c0 = "\<lambda>u::string. ?nf"
  let ?c1 = "\<lambda>u. if u = repo_endpoint ''abez123'' ''gitalyzer''
            then \<lparr>status_code = 200, text = ''{}'', json_body = Some (JObj [])\<rparr>
            else ?nf"
  note thm0 = fetch_facets_degrade [of ?c0 "''abez123''" "''gitalyzer''" "\<lambda>s. None"]
  note thm1 = fetch_facets_degrade [of ?c1 "''abez123''" "''gitalyzer''" "\<lambda>s. None"]
  have s404: "str_nat 404 = ''404''"
    by (simp add: str_nat.simps digit_char_def)
  have a: "fetch_repository_snapshot ?c0 (\<lambda>s. None) ''abez123'' ''gitalyzer''
     = Inl (GitHubAPIError ''Unable to retrieve repository: 404 Not Found'')"
    using thm0 by (simp add: s404)
  have upd: "?c1(repo_endpoint ''abez123'' ''gitalyzer'' @ ''/languages'' := ?nf) = ?c1"
    "?c1(repo_endpoint ''abez123'' ''gitalyzer'' @ ''/readme'' := ?nf) = ?c1"
    "?c1(repo_endpoint ''abez123'' ''gitalyzer'' @ ''/commits?per_page=5'' := ?nf) = ?c1"
    by (auto simp: fun_eq_iff endpoints_distinct)
  have "\<exists>s. fetch_repository_snapshot ?c1 (\<lambda>s. None) ''abez123'' ''gitalyzer'' = Inr s"
    unfolding fetch_repository_snapshot_def snapshot_dict_def Let_def
    by (simp add: endpoints_distinct resp_json_def and_then_def py_get_def or_empty_get_def)
  then obtain s where s: "fetch_repository_snapshot ?c1 (\<lambda>s. None) ''abez123'' ''gitalyzer'' = Inr s" ..
  have l: "status_code (?c1 (repo_endpoint ''abez123'' ''gitalyzer'' @ ''/languages'')) \<noteq> 200 \<and>
      fetch_repository_snapshot (?c1(repo_endpoint ''abez123'' ''gitalyzer'' @ ''/languages'' := ?nf))
        (\<lambda>s. None) ''abez123'' ''gitalyzer'' = Inr s"
    unfolding upd using s by (simp add: endpoints_distinct)
  have r: "status_code (?c1 (repo_endpoint ''abez123'' ''gitalyzer'' @ ''/readme'')) \<noteq> 200 \<and>
      fetch_repository_snapshot (?c1(repo_endpoint ''abez123'' ''gitalyzer'' @ ''/readme'' := ?nf))
        (\<lambda>s. None) ''abez123'' ''gitalyzer'' = Inr s"
    unfolding upd using s by (simp add: endpoints_distinct)
  have c: "status_code (?c1 (repo_endpoint ''abez123'' ''gitalyzer'' @ ''/commits?per_page=5'')) \<noteq> 200 \<and>
      fetch_repository_snapshot (?c1(repo_endpoint ''abez123'' ''gitalyzer'' @ ''/commits?per_page=5'' := ?nf))
        (\<lambda>s. None) ''abez123'' ''gitalyzer'' = Inr s"
    unfolding upd using s by (simp add: endpoints_distinct)
  from thm1 [THEN conjunct2, THEN conjunct1, rule_format, OF l] s
  have 1: "py_get s ''languages'' JNull = Inr (JObj [])" by auto
  from thm1 [THEN conjunct2, THEN conjunct2, THEN conjunct1, rule_format, OF r] s
  have 2: "py_get s ''readme_excerpt'' JNull = Inr (JStr [])" by auto
  from thm1 [THEN conjunct2, THEN conjunct2, THEN conjunct2, rule_format, OF c] s
  have 3: "py_get s ''recent_commits'' JNull = Inr (JArr [])" by auto
  from 1 2 3
  have "\<exists>s'. fetch_repository_snapshot ?c1 (\<lambda>s. None) ''abez123'' ''gitalyzer'' = Inr s' \<and>
      py_get s' ''languages'' JNull = Inr (JObj []) \<and>
      py_get s' ''readme_excerpt'' JNull = Inr (JStr []) \<and>
      py_get s' ''recent_commits'' JNull = Inr (JArr [])"
    using s by (intro exI conjI)
  with a show ?thesis by (rule conjI)
qed

section \<open>Properties of the fallback and of the context\<close>

lemma dropWhile_snoc_keep: "\<not> P c \<Longrightarrow> dropWhile P (ys @ [c]) = dropWhile P ys @ [c]"
  by (induction ys) simp_all

lemma dropWhile_snoc_drop:
  "P c \<Longrightarrow> dropWhile P (ys @ [c]) = (if \<forall>y\<in>set ys. P y then [] else dropWhile P ys @ [c])"
  by (induction ys) simp_all

lemma dropWhile_rev_commute:
  "dropWhile P (rev (dropWhile P (rev x))) = rev (dropWhile P (rev (dropWhile P x)))"
proof (induction x)
  case Nil
  show ?case by simp
next
  case (Cons c x)
  show ?case
  proof (cases "P c")
    case True
    have "dropWhile P (rev (dropWhile P (rev x @ [c]))) = dropWhile P (rev (dropWhile P (rev x)))"
    proof (cases "\<forall>y\<in>set (rev x). P y")
      case all: True
      then have "dropWhile P (rev x) = []" by simp
      moreover from all True have "dropWhile P (rev x @ [c]) = []" by simp
      ultimately show ?thesis by (simp only: rev.simps dropWhile.simps)
    next
      case False
      with True have "dropWhile P (rev x @ [c]) = dropWhile P (rev x) @ [c]"
        by (simp only: dropWhile_snoc_drop if_False)
      then show ?thesis using True by simp
    qed
    then show ?thesis using True Cons.IH by simp
  next
    case False
    then have "dropWhile P (rev x @ [c]) = dropWhile P (rev x) @ [c]"
      by (rule dropWhile_snoc_keep)
    then show ?thesis using False by simp
  qed
qed

lemma lstrip_rstrip: "lstrip (rstrip x) = rstrip (lstrip x)"
  unfolding lstrip_def rstrip_def by (rule dropWhile_rev_commute)

lemma rstrip_idem: "rstrip (rstrip x) = rstrip x"
  unfolding rstrip_def by simp

lemma rstrip_append_keep:
  assumes "Y \<noteq> []" "\<not> is_space (last Y)"
  shows "rstrip (Y @ e) = Y @ rstrip e"
proof (cases "\<forall>x\<in>set (rev e). is_space x")
  case True
  have 1: "dropWhile is_space (rev Y) = rev Y"
    using assms by (cases Y rule: rev_cases) auto
  have 2: "dropWhile is_space (rev e @ rev Y) = dropWhile is_space (rev Y)"
  proof (rule dropWhile_append2)
    fix x assume "x \<in> set (rev e)"
    with True show "is_space x" by blast
  qed
  have 3: "dropWhile is_space (rev e) = []" using True by simp
  show ?thesis unfolding rstrip_def
    by (simp only: rev_append 1 2 3 rev_rev_ident rev.simps append_Nil2)
next
  case False
  then obtain x where "x \<in> set (rev e)" "\<not> is_space x" by blast
  then have 3: "dropWhile is_space (rev e @ rev Y) = dropWhile is_space (rev e) @ rev Y"
    by (rule dropWhile_append1)
  show ?thesis unfolding rstrip_def
    by (simp only: rev_append 3 rev_rev_ident)
qed

lemma is_space_blank: "is_space CHR '' ''"
  by (simp add: is_space_def)

lemma not_space_colon: "\<not> is_space CHR '':''"
  by (simp add: is_space_def)

text \<open>Stripping the value that follows a label and a blank.\<close>

lemma strip_value: "strip (rstrip (CHR '' '' # d)) = strip d"
proof -
  have "strip (rstrip (CHR '' '' # d)) = rstrip (rstrip (lstrip (CHR '' '' # d)))"
    unfolding strip_def by (simp only: lstrip_rstrip)
  also have "\<dots> = rstrip (lstrip (CHR '' '' # d))" by (rule rstrip_idem)
  also have "lstrip (CHR '' '' # d) = lstrip d" by (simp add: lstrip_def is_space_blank)
  finally show ?thesis by (simp only: strip_def)
qed

text \<open>A labelled line: what stripping leaves of it.\<close>

lemma strip_labelled:
  assumes "label \<noteq> []" "\<not> is_space (hd label)" "\<not> is_space (last label)"
  shows "strip (label @ v) = label @ rstrip v"
proof -
  have "lstrip (label @ v) = label @ v"
    using assms(1,2) unfolding lstrip_def by (cases label) simp_all
  then show ?thesis
    unfolding strip_def using rstrip_append_keep [OF assms(1,3)] by simp
qed

text \<open>Lines.\<close>

lemma not_linebreak_CR: "\<not> is_linebreak c \<Longrightarrow> c \<noteq> CHR 0x0D"
  by (auto simp: is_linebreak_def)

lemma linebreak_LF: "is_linebreak CHR 0x0A"
  by (simp add: is_linebreak_def)

lemma splitlines_acc_first:
  "\<forall>c\<in>set A. \<not> is_linebreak c \<Longrightarrow>
   splitlines_acc acc (A @ CHR 0x0A # rest) = (rev acc @ A) # splitlines_acc [] rest"
proof (induction A arbitrary: acc)
  case Nil
  show ?case by (cases rest) (simp_all add: linebreak_LF)
next
  case (Cons x xs)
  then have x: "\<not> is_linebreak x" and xs: "\<forall>c\<in>set xs. \<not> is_linebreak c" by simp_all
  obtain y ys where y: "xs @ CHR 0x0A # rest = y # ys" by (cases xs) simp_all
  have "splitlines_acc acc (x # y # ys) = splitlines_acc (x # acc) (y # ys)"
    using x not_linebreak_CR [OF x] by simp
  then show ?case using Cons.IH [OF xs, of "x # acc"] y by simp
qed

lemma splitlines_first:
  "\<forall>c\<in>set A. \<not> is_linebreak c \<Longrightarrow> splitlines (A @ CHR 0x0A # rest) = A # splitlines rest"
  unfolding splitlines_def using splitlines_acc_first [of A "[]" rest] by simp

text \<open>Splitting at the first colon.\<close>

lemma split_once_colon:
  "CHR '':'' \<notin> set a \<Longrightarrow> split_once '':'' acc (a @ CHR '':'' # v) = [rev acc @ a, v]"
  by (induction a arbitrary: acc) simp_all

lemma split_once_two:
  assumes "CHR '':'' \<in> set line"
  shows "\<exists>a v. split_once '':'' [] line = [a, v]"
proof -
  from assms obtain a v where "line = a @ CHR '':'' # v" "CHR '':'' \<notin> set a"
    by (meson split_list_first)
  then show ?thesis using split_once_colon [of a "[]" v] by simp
qed

lemma first_labelled_total:
  assumes "CHR '':'' \<in> set label"
  shows "\<exists>v. first_labelled label lines = Inr v"
proof (cases "find (prefix label) lines")
  case None
  then show ?thesis by (simp add: first_labelled_def)
next
  case (Some line)
  then have "prefix label line" by (auto simp: find_Some_iff)
  then have "set label \<subseteq> set line" by (rule set_mono_prefix)
  with assms have "CHR '':'' \<in> set line" by blast
  from split_once_two [OF this] obtain a v where "split_once '':'' [] line = [a, v]" by blast
  with Some show ?thesis by (simp add: first_labelled_def)
qed

lemma find_first:
  "\<forall>l\<in>set before. \<not> P l \<Longrightarrow> P x \<Longrightarrow> find P (before @ x # after) = Some x"
  by (induction before) simp_all

text \<open>The two fields of the fallback that depend on the context.\<close>

lemma fallback_fields:
  assumes "first_labelled ''Description:'' (context_lines c) = Inr d"
    and "first_labelled ''Languages:'' (context_lines c) = Inr l"
  shows "fallback_field ''project_summary'' c =
           Inr (JStr (if d \<noteq> [] then d
                      else ''This repository does not include a description on GitHub.''))"
    and "fallback_field ''tech_stack'' c =
           Inr (json_strings
            [''GitHub topics: '' @ (if l \<noteq> [] then l else ''Not specified''),
             ''Primary language reported by GitHub: '' @
               (if l \<noteq> [] then hd (split_str '','' l) else ''Unknown''),
             ''Recent commits are highlighted to show ongoing work.''])"
  unfolding fallback_field_def generate_rule_based_summary_def Let_def assms and_then_Inr
  by (simp_all add: py_item_def)

lemma first_labelled_found:
  assumes "lines = before @ (label @ v) # after" "\<forall>l\<in>set before. \<not> prefix label l"
    and "label = a @ '':''" "CHR '':'' \<notin> set a"
  shows "first_labelled label lines = Inr (strip v)"
proof -
  have "find (prefix label) lines = Some (label @ v)"
    unfolding assms(1) using assms(2) by (rule find_first) simp
  moreover have "split_once '':'' [] (label @ v) = [a, v]"
    unfolding assms(3) using split_once_colon [OF assms(4), of "[]" v] by simp
  ultimately show ?thesis by (simp add: first_labelled_def)
qed

text \<open>
  C6. When the first of the stripped, non-empty lines of the context that
  starts with \<open>Description:\<close> is \<open>Description: Foo bar.\<close> and the first that starts with
  \<open>Languages:\<close> is \<open>Languages: Python (900), Go (100)\<close>, the fallback's \<open>project_summary\<close> is
  \<open>Foo bar.\<close> and the first entry of its \<open>tech_stack\<close> is
  \<open>GitHub topics: Python (900), Go (100)\<close>, which contains \<open>Python\<close>.
\<close>

theorem fallback_first_labelled_lines:
  assumes "context_lines context = before @ ''Description: Foo bar.'' # after"
    and "\<forall>l\<in>set before. \<not> prefix ''Description:'' l"
    and "context_lines context = before' @ ''Languages: Python (900), Go (100)'' # after'"
    and "\<forall>l\<in>set before'. \<not> prefix ''Languages:'' l"
  shows "fallback_field ''project_summary'' context = Inr (JStr ''Foo bar.'') \<and>
         fallback_field ''tech_stack'' context =
           Inr (JArr [JStr ''GitHub topics: Python (900), Go (100)'',
                      JStr ''Primary language reported by GitHub: Python (900)'',
                      JStr ''Recent commits are highlighted to show ongoing work.'']) \<and>
         sublist ''Python'' ''GitHub topics: Python (900), Go (100)''"
proof -
  have d: "first_labelled ''Description:'' (context_lines context) = Inr (strip '' Foo bar.'')"
    by (rule first_labelled_found [where a = "''Description''" and before = before and after = after])
       (use assms(1,2) in simp_all)
  have l: "first_labelled ''Languages:'' (context_lines context) = Inr (strip '' Python (900), Go (100)'')"
    by (rule first_labelled_found [where a = "''Languages''" and before = before' and after = after'])
       (use assms(3,4) in simp_all)
  have sd: "strip '' Foo bar.'' = ''Foo bar.''"
    by (simp add: strip_def lstrip_def rstrip_def is_space_def)
  have sl: "strip '' Python (900), Go (100)'' = ''Python (900), Go (100)''"
    by (simp add: strip_def lstrip_def rstrip_def is_space_def)
  have h: "hd (split_str '','' ''Python (900), Go (100)'') = ''Python (900)''"
    by (simp add: split_str_def split_sep.simps)
  have p: "sublist ''Python'' ''GitHub topics: Python (900), Go (100)''"
    by (simp add: sublist_code)
  show ?thesis
    using fallback_fields [OF d l] h p unfolding sd sl by (simp add: json_strings_def)
qed

theorem fallback_first_labelled_lines_witness:
  "fallback_field ''project_summary''
     (''Repository: demo'' @ [CHR 0x0A] @ ''Description: Foo bar.'' @ [CHR 0x0A] @
      ''Languages: Python (900), Go (100)'') = Inr (JStr ''Foo bar.'')"
proof -
  let ?c = "''Repository: demo'' @ [CHR 0x0A] @ ''Description: Foo bar.'' @ [CHR 0x0A] @
      ''Languages: Python (900), Go (100)''"
  have lines: "context_lines ?c =
      [''Repository: demo'', ''Description: Foo bar.'', ''Languages: Python (900), Go (100)'']"
    by (simp add: context_lines_def splitlines_def is_linebreak_def strip_def lstrip_def
        rstrip_def is_space_def)
  have 1: "context_lines ?c = [''Repository: demo''] @ ''Description: Foo bar.'' #
      [''Languages: Python (900), Go (100)'']"
    and 2: "\<forall>l\<in>set [''Repository: demo'']. \<not> prefix ''Description:'' l"
    and 3: "context_lines ?c = [''Repository: demo'', ''Description: Foo bar.''] @
       ''Languages: Python (900), Go (100)'' # []"
    and 4: "\<forall>l\<in>set [''Repository: demo'', ''Description: Foo bar.'']. \<not> prefix ''Languages:'' l"
    unfolding lines by simp_all
  from fallback_first_labelled_lines [OF 1 2 3 4] show ?thesis by (rule conjunct1)
qed

text \<open>C6, without the restriction to the first labelled line: a context may contain the line \<open>Description: Foo bar.\<close>
  after an earlier line with the same label, and the earlier one is taken.\<close>

theorem fallback_contains_line_counterexample:
  "''Description: Foo bar.'' \<in> set (splitlines
      (''Description: X'' @ [CHR 0x0A] @ ''Description: Foo bar.'' @ [CHR 0x0A] @
       ''Languages: Python (900), Go (100)'')) \<and>
   ''Languages: Python (900), Go (100)'' \<in> set (splitlines
      (''Description: X'' @ [CHR 0x0A] @ ''Description: Foo bar.'' @ [CHR 0x0A] @
       ''Languages: Python (900), Go (100)'')) \<and>
   fallback_field ''project_summary''
      (''Description: X'' @ [CHR 0x0A] @ ''Description: Foo bar.'' @ [CHR 0x0A] @
       ''Languages: Python (900), Go (100)'') = Inr (JStr ''X'') \<and>
   JStr ''X'' \<noteq> JStr ''Foo bar.''"
proof -
  let ?c = "''Description: X'' @ [CHR 0x0A] @ ''Description: Foo bar.'' @ [CHR 0x0A] @
       ''Languages: Python (900), Go (100)''"
  have sl: "splitlines ?c =
      [''Description: X'', ''Description: Foo bar.'', ''Languages: Python (900), Go (100)'']"
    by (simp add: splitlines_def is_linebreak_def)
  have lines: "context_lines ?c =
      [''Description: X'', ''Description: Foo bar.'', ''Languages: Python (900), Go (100)'']"
    unfolding context_lines_def sl
    by (simp add: strip_def lstrip_def rstrip_def is_space_def)
  have d: "first_labelled ''Description:'' (context_lines ?c) = Inr ''X''"
    unfolding lines by (simp add: first_labelled_def strip_def lstrip_def rstrip_def is_space_def)
  have l: "first_labelled ''Languages:'' (context_lines ?c) = Inr ''Python (900), Go (100)''"
    unfolding lines by (simp add: first_labelled_def strip_def lstrip_def rstrip_def is_space_def)
  show ?thesis
    using fallback_fields(1) [OF d l] unfolding sl by simp
qed

lemma or_default_not_Nil: "dflt \<noteq> [] \<Longrightarrow> or_default x dflt \<noteq> []"
  by (simp add: or_default_def split: option.split)

lemma build_context_shape:
  assumes "build_context repo = Inr context"
  shows "\<exists>rest. context =
           (''Repository: '' @ repository_label repo) @ CHR 0x0A #
           (''Description: '' @ or_default (description repo) ''No description provided.'') @
           CHR 0x0A # rest"
proof -
  from assms obtain ls where "commit_lines (recent_commits repo) = Inr ls"
    unfolding build_context_def Let_def by (cases "commit_lines (recent_commits repo)") (simp_all add: and_then_Inl)
  with assms show ?thesis
    unfolding build_context_def Let_def by (simp add: and_then_Inr) blast
qed

lemma context_lines_two:
  assumes "\<forall>c\<in>set A. \<not> is_linebreak c" "\<forall>c\<in>set B. \<not> is_linebreak c"
    and "strip A \<noteq> []" "strip B \<noteq> []"
  shows "\<exists>more. context_lines (A @ CHR 0x0A # B @ CHR 0x0A # rest) = strip A # strip B # more"
proof -
  have "splitlines (A @ CHR 0x0A # B @ CHR 0x0A # rest) = A # B # splitlines rest"
    using splitlines_first [OF assms(1)] splitlines_first [OF assms(2)] by simp
  then show ?thesis unfolding context_lines_def using assms(3,4) by simp
qed

lemma no_linebreak_literals:
  "\<forall>c\<in>set ''Repository: ''. \<not> is_linebreak c"
  "\<forall>c\<in>set ''Description: ''. \<not> is_linebreak c"
  by (simp_all add: is_linebreak_def)

text \<open>The description the fallback reads back from a context.\<close>

lemma description_read_back:
  assumes "\<forall>c\<in>set label. \<not> is_linebreak c" "\<forall>c\<in>set d. \<not> is_linebreak c"
  shows "first_labelled ''Description:''
           (context_lines ((''Repository: '' @ label) @ CHR 0x0A # (''Description: '' @ d) @ CHR 0x0A # rest))
         = Inr (strip d)"
proof -
  let ?A = "''Repository: '' @ label" and ?B = "''Description: '' @ d"
  have sA: "strip ?A = ''Repository:'' @ rstrip (CHR '' '' # label)"
    using strip_labelled [of "''Repository:''" "CHR '' '' # label"]
    by (simp add: is_space_def)
  have sB: "strip ?B = ''Description:'' @ rstrip (CHR '' '' # d)"
    using strip_labelled [of "''Description:''" "CHR '' '' # d"]
    by (simp add: is_space_def)
  have nA: "\<forall>c\<in>set ?A. \<not> is_linebreak c" using assms(1) no_linebreak_literals(1) by auto
  have nB: "\<forall>c\<in>set ?B. \<not> is_linebreak c" using assms(2) no_linebreak_literals(2) by auto
  have "strip ?A \<noteq> []" "strip ?B \<noteq> []" unfolding sA sB by simp_all
  from context_lines_two [OF nA nB this, of rest] obtain more where
    lines: "context_lines (?A @ CHR 0x0A # ?B @ CHR 0x0A # rest) = strip ?A # strip ?B # more" ..
  have "first_labelled ''Description:''
          ([''Repository:'' @ rstrip (CHR '' '' # label)] @ (''Description:'' @ rstrip (CHR '' '' # d)) # more)
          = Inr (strip (rstrip (CHR '' '' # d)))"
    by (rule first_labelled_found [where a = "''Description''"
          and before = "[''Repository:'' @ rstrip (CHR '' '' # label)]" and after = more])
       simp_all
  then show ?thesis unfolding lines sA sB strip_value by simp
qed

text \<open>
  C8. A context returned by \<open>build_context\<close> begins with the line \<open>Repository: label\<close>
  followed by the line \<open>Description: value\<close>, where the value is the description of the
  snapshot as it is, or the placeholder \<open>No description provided.\<close> when the description is
  absent or empty; the value is never the empty string. When the repository label and
  the value contain no line break, the fallback's \<open>project_summary\<close> is the value with
  surrounding white space removed; its own missing-description headline is used when
  nothing remains, that is when the description consists of white space only.
\<close>

theorem context_project_summary:
  assumes "build_context repo = Inr context"
  shows "or_default (description repo) ''No description provided.'' \<noteq> [] \<and>
         (\<exists>rest. context =
            ''Repository: '' @ repository_label repo @ [CHR 0x0A] @
            ''Description: '' @ or_default (description repo) ''No description provided.'' @ [CHR 0x0A] @
            rest) \<and>
         ((\<forall>c\<in>set (repository_label repo). \<not> is_linebreak c) \<and>
          (\<forall>c\<in>set (or_default (description repo) ''No description provided.''). \<not> is_linebreak c) \<longrightarrow>
          fallback_field ''project_summary'' context =
            Inr (JStr (if strip (or_default (description repo) ''No description provided.'') \<noteq> []
                       then strip (or_default (description repo) ''No description provided.'')
                       else ''This repository does not include a description on GitHub.'')))"
proof (intro conjI impI)
  let ?d = "or_default (description repo) ''No description provided.''"
  show "?d \<noteq> []" by (rule or_default_not_Nil) simp
  from build_context_shape [OF assms] obtain rest where
    c: "context = (''Repository: '' @ repository_label repo) @ CHR 0x0A #
           (''Description: '' @ ?d) @ CHR 0x0A # rest" ..
  have "context = ''Repository: '' @ repository_label repo @ [CHR 0x0A] @
            ''Description: '' @ ?d @ [CHR 0x0A] @ rest"
    unfolding c by simp
  then show "\<exists>rest. context = ''Repository: '' @ repository_label repo @ [CHR 0x0A] @
            ''Description: '' @ ?d @ [CHR 0x0A] @ rest" ..
  assume h: "(\<forall>c\<in>set (repository_label repo). \<not> is_linebreak c) \<and> (\<forall>c\<in>set ?d. \<not> is_linebreak c)"
  have d: "first_labelled ''Description:'' (context_lines context) = Inr (strip ?d)"
    unfolding c by (rule description_read_back [OF conjunct1 [OF h] conjunct2 [OF h]])
  obtain l where l: "first_labelled ''Languages:'' (context_lines context) = Inr l"
    using first_labelled_total [of "''Languages:''" "context_lines context"] by auto
  from fallback_fields(1) [OF d l]
  show "fallback_field ''project_summary'' context =
          Inr (JStr (if strip ?d \<noteq> [] then strip ?d
                     else ''This repository does not include a description on GitHub.''))"
    by simp
qed

lemma build_context_no_commits:
  "recent_commits repo = [] \<Longrightarrow> \<exists>c. build_context repo = Inr c"
  by (simp add: build_context_def Let_def and_then_Inr)

theorem context_project_summary_witness:
  "\<exists>rest.
     build_context
       \<lparr>name = Some ''gitalyzer'', full_name = Some ''abez123/gitalyzer'',
        description = Some ''  A tool  '', html_url = None, default_branch = None, license = None,
        stars = 0, forks = 0, open_issues = 0, watchers = 0, language = None, topics = [],
        languages = [], recent_commits = [], readme_excerpt = None\<rparr>
       = Inr (''Repository: abez123/gitalyzer'' @ [CHR 0x0A] @ ''Description:   A tool  '' @ [CHR 0x0A] @ rest) \<and>
     fallback_field ''project_summary''
       (''Repository: abez123/gitalyzer'' @ [CHR 0x0A] @ ''Description:   A tool  '' @ [CHR 0x0A] @ rest)
       = Inr (JStr ''A tool'')"
proof -
  let ?r = "\<lparr>name = Some ''gitalyzer'', full_name = Some ''abez123/gitalyzer'',
       description = Some ''  A tool  '', html_url = None, default_branch = None, license = None,
       stars = 0, forks = 0, open_issues = 0, watchers = 0, language = None, topics = [],
       languages = [], recent_commits = [], readme_excerpt = None\<rparr>"
  obtain c where c: "build_context ?r = Inr c"
    using build_context_no_commits [of ?r] by auto
  have l: "repository_label ?r = ''abez123/gitalyzer''"
    by (simp add: repository_label_def)
  have d: "or_default (description ?r) ''No description provided.'' = ''  A tool  ''"
    by (simp add: or_default_def)
  have s: "strip ''  A tool  '' = ''A tool''"
    by (simp add: strip_def lstrip_def rstrip_def is_space_def)
  have n: "(\<forall>c\<in>set ''abez123/gitalyzer''. \<not> is_linebreak c) \<and> (\<forall>c\<in>set ''  A tool  ''. \<not> is_linebreak c)"
    by (simp add: is_linebreak_def)
  from context_project_summary [OF c]
  have shape: "\<exists>rest. c = ''Repository: '' @ ''abez123/gitalyzer'' @ [CHR 0x0A] @
                  ''Description: '' @ ''  A tool  '' @ [CHR 0x0A] @ rest"
    and f: "(\<forall>c\<in>set ''abez123/gitalyzer''. \<not> is_linebreak c) \<and> (\<forall>c\<in>set ''  A tool  ''. \<not> is_linebreak c) \<longrightarrow>
            fallback_field ''project_summary'' c =
              Inr (JStr (if strip ''  A tool  '' \<noteq> [] then strip ''  A tool  ''
                         else ''This repository does not include a description on GitHub.''))"
    unfolding l d by blast+
  from f n have "fallback_field ''project_summary'' c = Inr (JStr ''A tool'')"
    unfolding s by simp
  moreover from shape obtain rest where
    "c = ''Repository: abez123/gitalyzer'' @ [CHR 0x0A] @ ''Description:   A tool  '' @ [CHR 0x0A] @ rest"
    by auto
  ultimately show ?thesis using c by blast
qed

text \<open>C8, for a description of white space only: the description line of the context is
  blank after its label, and the fallback uses its own missing-description headline,
  which is neither the description nor the placeholder.\<close>

theorem context_blank_description_counterexample:
  "and_then (build_context
      \<lparr>name = Some ''gitalyzer'', full_name = Some ''abez123/gitalyzer'',
       description = Some '' '', html_url = None, default_branch = None, license = None,
       stars = 0, forks = 0, open_issues = 0, watchers = 0, language = None, topics = [],
       languages = [], recent_commits = [], readme_excerpt = None\<rparr>)
     (fallback_field ''project_summary'')
     = Inr (JStr ''This repository does not include a description on GitHub.'') \<and>
   ''This repository does not include a description on GitHub.'' \<noteq> '' '' \<and>
   ''This repository does not include a description on GitHub.'' \<noteq> ''No description provided.''"
proof -
  let ?r = "\<lparr>name = Some ''gitalyzer'', full_name = Some ''abez123/gitalyzer'',
       description = Some '' '', html_url = None, default_branch = None, license = None,
       stars = 0, forks = 0, open_issues = 0, watchers = 0, language = None, topics = [],
       languages = [], recent_commits = [], readme_excerpt = None\<rparr>"
  obtain c where c: "build_context ?r = Inr c"
    using build_context_no_commits [of ?r] by auto
  from build_context_shape [OF c] obtain rest where
    shape: "c = (''Repository: '' @ ''abez123/gitalyzer'') @ CHR 0x0A #
           (''Description: '' @ '' '') @ CHR 0x0A # rest"
    by (auto simp: repository_label_def or_default_def)
  have d: "first_labelled ''Description:'' (context_lines c) = Inr (strip '' '')"
    unfolding shape by (rule description_read_back) (simp_all add: is_linebreak_def)
  obtain l where l: "first_labelled ''Languages:'' (context_lines c) = Inr l"
    using first_labelled_total [of "''Languages:''" "context_lines c"] by auto
  have s: "strip '' '' = []"
    by (simp add: strip_def lstrip_def rstrip_def is_space_def)
  have "fallback_field ''project_summary'' c =
          Inr (JStr ''This repository does not include a description on GitHub.'')"
    using fallback_fields(1) [OF d l] unfolding s by simp
  then show ?thesis unfolding c and_then_Inr by simp
qed

section \<open>Properties of narrative validation\<close>

lemma and_then_eq_Inl:
  "and_then r f = Inl e \<longleftrightarrow> r = Inl e \<or> (\<exists>x. r = Inr x \<and> f x = Inl e)"
  by (cases r) (simp_all add: and_then_def)

lemma validate_str_error: "validate_str v = Inl e \<Longrightarrow> e = ValidationError"
  by (cases v) (simp_all add: validate_str_def)

lemma validate_str_Inr: "validate_str v = Inr s \<longleftrightarrow> v = JStr s"
  by (cases v) (simp_all add: validate_str_def)

lemma only_validation_errorD: "only_validation_error f \<Longrightarrow> f v = Inl e \<Longrightarrow> e = ValidationError"
  unfolding only_validation_error_def by blast

lemma validate_str_only: "only_validation_error validate_str"
  unfolding only_validation_error_def using validate_str_error by blast

lemma validate_each_error:
  "only_validation_error f \<Longrightarrow> validate_each f vs = Inl e \<Longrightarrow> e = ValidationError"
  by (induction vs arbitrary: e) (auto split: sum.splits dest: only_validation_errorD)

lemma validate_list_error:
  assumes "only_validation_error f" and "validate_list f v = Inl e"
  shows "e = ValidationError"
proof (cases v)
  case (JArr vs)
  with assms(2) have "validate_each f vs = Inl e" by (simp add: validate_list_def)
  with assms(1) show ?thesis by (rule validate_each_error)
qed (use assms(2) in \<open>simp_all add: validate_list_def\<close>)

lemma validate_list_Inr: "validate_list f v = Inr xs \<Longrightarrow> \<exists>vs. v = JArr vs"
  by (cases v) (simp_all add: validate_list_def)

lemma required_field_error:
  assumes "only_validation_error f" and "required_field f obj k = Inl e"
  shows "e = ValidationError"
proof (cases "map_of obj k")
  case None
  with assms(2) show ?thesis by (simp add: required_field_def)
next
  case (Some v)
  with assms(2) have "f v = Inl e" by (simp add: required_field_def)
  with assms(1) show ?thesis by (rule only_validation_errorD)
qed

lemma required_field_Inr:
  "required_field f obj k = Inr x \<Longrightarrow> \<exists>v. map_of obj k = Some v \<and> f v = Inr x"
  by (auto simp: required_field_def split: option.splits)

lemma list_field_error:
  assumes "only_validation_error f" and "list_field f obj k = Inl e"
  shows "e = ValidationError"
proof (cases "map_of obj k")
  case None
  with assms(2) show ?thesis by (simp add: list_field_def)
next
  case (Some v)
  with assms(2) have "validate_list f v = Inl e" by (simp add: list_field_def)
  with assms(1) show ?thesis by (rule validate_list_error)
qed

lemma list_field_Inr:
  "list_field f obj k = Inr xs \<Longrightarrow> map_of obj k = Some v \<Longrightarrow> \<exists>vs. v = JArr vs"
  by (auto simp: list_field_def dest: validate_list_Inr)

lemma validate_glossary_item_only: "only_validation_error validate_glossary_item"
  unfolding only_validation_error_def
proof (intro allI impI)
  fix v e assume a: "validate_glossary_item v = Inl e"
  show "e = ValidationError"
  proof (cases v)
    case (JObj obj)
    from a have "and_then (required_field validate_str obj ''term'') (\<lambda>t.
          and_then (required_field validate_str obj ''definition'') (\<lambda>d.
            Inr \<lparr>term = t, definition = d\<rparr>)) = Inl e"
      unfolding JObj validate_glossary_item_def by simp
    then show ?thesis
      unfolding and_then_eq_Inl
      by (auto dest: required_field_error [OF validate_str_only])
  qed (use a in \<open>simp_all add: validate_glossary_item_def\<close>)
qed

text \<open>Validation raises nothing but \<open>ValidationError\<close>.\<close>

lemma validate_analysis_error: "validate_analysis v = Inl e \<Longrightarrow> e = ValidationError"
proof (cases v)
  case (JObj obj)
  assume "validate_analysis v = Inl e"
  then show ?thesis
    unfolding JObj validate_analysis_def json.case and_then_eq_Inl
    by (elim disjE exE conjE)
       (auto dest: required_field_error [OF validate_str_only]
                   list_field_error [OF validate_str_only]
                   list_field_error [OF validate_glossary_item_only])
qed (simp_all add: validate_analysis_def)

text \<open>An accepted object: every field was accepted.\<close>

lemma validate_analysis_Inr:
  assumes "validate_analysis (JObj obj) = Inr n"
  shows "required_field validate_str obj ''project_summary'' = Inr (project_summary n)"
    and "required_field validate_str obj ''how_it_helps_people'' = Inr (how_it_helps_people n)"
    and "list_field validate_str obj ''main_features'' = Inr (main_features n)"
    and "list_field validate_str obj ''how_it_works'' = Inr (how_it_works n)"
    and "list_field validate_str obj ''tech_stack'' = Inr (tech_stack n)"
    and "list_field validate_str obj ''getting_started'' = Inr (getting_started n)"
    and "list_field validate_str obj ''next_steps'' = Inr (next_steps n)"
    and "list_field validate_glossary_item obj ''glossary'' = Inr (glossary n)"
  using assms unfolding validate_analysis_def json.case and_then_eq_Inr by auto

lemma validate_analysis_rejects:
  assumes "\<And>n. validate_analysis v \<noteq> Inr n"
  shows "validate_analysis v = Inl ValidationError"
proof (cases "validate_analysis v")
  case (Inl e)
  then show ?thesis using validate_analysis_error [OF Inl] by simp
next
  case (Inr n)
  then show ?thesis using assms by simp
qed

lemma required_field_cong:
  "map_of obj k = map_of obj' k \<Longrightarrow> required_field f obj k = required_field f obj' k"
  by (simp add: required_field_def)

lemma list_field_cong:
  "map_of obj k = map_of obj' k \<Longrightarrow> list_field f obj k = list_field f obj' k"
  by (simp add: list_field_def)

text \<open>
  C7. Validation of an object against \<open>RepositoryAnalysis\<close>:
  (1) an object without \<open>project_summary\<close> or without \<open>how_it_helps_people\<close> is rejected;
  (2) so is one where either of them is not a string (no coercion);
  (3) so is one where a list field is present with a value that is not a list;
  (4) the result depends on the eight declared fields only: keys outside the declared
  set are ignored, they do not make validation fail.
\<close>

theorem validate_analysis_fields:
  "(map_of obj ''project_summary'' = None \<or> map_of obj ''how_it_helps_people'' = None \<longrightarrow>
      validate_analysis (JObj obj) = Inl ValidationError) \<and>
   (k \<in> set [''project_summary'', ''how_it_helps_people''] \<and> map_of obj k = Some v \<and>
      (\<forall>s. v \<noteq> JStr s) \<longrightarrow> validate_analysis (JObj obj) = Inl ValidationError) \<and>
   (k \<in> set analysis_list_fields \<and> map_of obj k = Some v \<and> (\<forall>vs. v \<noteq> JArr vs) \<longrightarrow>
      validate_analysis (JObj obj) = Inl ValidationError) \<and>
   ((\<forall>f\<in>set analysis_field_names. map_of obj' f = map_of obj f) \<longrightarrow>
      validate_analysis (JObj obj') = validate_analysis (JObj obj))"
proof (intro conjI impI)
  assume a: "map_of obj ''project_summary'' = None \<or> map_of obj ''how_it_helps_people'' = None"
  show "validate_analysis (JObj obj) = Inl ValidationError"
  proof (rule validate_analysis_rejects)
    fix n show "validate_analysis (JObj obj) \<noteq> Inr n"
    proof
      assume "validate_analysis (JObj obj) = Inr n"
      from validate_analysis_Inr(1,2) [OF this] a show False
        by (auto dest!: required_field_Inr)
    qed
  qed
next
  assume a: "k \<in> set [''project_summary'', ''how_it_helps_people''] \<and> map_of obj k = Some v \<and>
      (\<forall>s. v \<noteq> JStr s)"
  show "validate_analysis (JObj obj) = Inl ValidationError"
  proof (rule validate_analysis_rejects)
    fix n show "validate_analysis (JObj obj) \<noteq> Inr n"
    proof
      assume "validate_analysis (JObj obj) = Inr n"
      from validate_analysis_Inr(1,2) [OF this] a show False
        by (auto dest!: required_field_Inr simp: validate_str_Inr)
    qed
  qed
next
  assume a: "k \<in> set analysis_list_fields \<and> map_of obj k = Some v \<and> (\<forall>vs. v \<noteq> JArr vs)"
  show "validate_analysis (JObj obj) = Inl ValidationError"
  proof (rule validate_analysis_rejects)
    fix n show "validate_analysis (JObj obj) \<noteq> Inr n"
    proof
      assume "validate_analysis (JObj obj) = Inr n"
      from validate_analysis_Inr(3-8) [OF this] a show False
        unfolding analysis_list_fields_def
        by (auto dest: list_field_Inr)
    qed
  qed
next
  assume a: "\<forall>f\<in>set analysis_field_names. map_of obj' f = map_of obj f"
  have "required_field validate_str obj' ''project_summary'' = required_field validate_str obj ''project_summary''"
    "required_field validate_str obj' ''how_it_helps_people'' = required_field validate_str obj ''how_it_helps_people''"
    "list_field validate_str obj' ''main_features'' = list_field validate_str obj ''main_features''"
    "list_field validate_str obj' ''how_it_works'' = list_field validate_str obj ''how_it_works''"
    "list_field validate_str obj' ''tech_stack'' = list_field validate_str obj ''tech_stack''"
    "list_field validate_str obj' ''getting_started'' = list_field validate_str obj ''getting_started''"
    "list_field validate_str obj' ''next_steps'' = list_field validate_str obj ''next_steps''"
    "list_field validate_glossary_item obj' ''glossary'' = list_field validate_glossary_item obj ''glossary''"
    using a unfolding analysis_field_names_def
    by (auto intro!: required_field_cong list_field_cong)
  then show "validate_analysis (JObj obj') = validate_analysis (JObj obj)"
    unfolding validate_analysis_def json.case by (simp only:)
qed

theorem validate_analysis_fields_witness:
  "validate_analysis (JObj [(''how_it_helps_people'', JStr ''It helps.'')]) = Inl ValidationError \<and>
   validate_analysis (JObj [(''project_summary'', JInt 7), (''how_it_helps_people'', JStr ''It helps.'')])
     = Inl ValidationError \<and>
   validate_analysis (JObj [(''project_summary'', JStr ''A tool.''),
                            (''how_it_helps_people'', JStr ''It helps.''),
                            (''tech_stack'', JStr ''Python'')]) = Inl ValidationError \<and>
   validate_analysis (JObj [(''project_summary'', JStr ''A tool.''),
                            (''how_it_helps_people'', JStr ''It helps.''),
                            (''rating'', JInt 5)])
     = validate_analysis (JObj [(''project_summary'', JStr ''A tool.''),
                                (''how_it_helps_people'', JStr ''It helps.'')])"
proof -
  have 1: "map_of [(''how_it_helps_people'', JStr ''It helps.'')] ''project_summary'' = None \<or>
           map_of [(''how_it_helps_people'', JStr ''It helps.'')] ''how_it_helps_people'' = None"
    by simp
  have 2: "''project_summary'' \<in> set [''project_summary'', ''how_it_helps_people''] \<and>
           map_of [(''project_summary'', JInt 7), (''how_it_helps_people'', JStr ''It helps.'')]
             ''project_summary'' = Some (JInt 7) \<and> (\<forall>s. JInt 7 \<noteq> JStr s)"
    by simp
  have 3: "''tech_stack'' \<in> set analysis_list_fields \<and>
           map_of [(''project_summary'', JStr ''A tool.''), (''how_it_helps_people'', JStr ''It helps.''),
                   (''tech_stack'', JStr ''Python'')] ''tech_stack'' = Some (JStr ''Python'') \<and>
           (\<forall>vs. JStr ''Python'' \<noteq> JArr vs)"
    by (simp add: analysis_list_fields_def)
  have 4: "\<forall>f\<in>set analysis_field_names.
             map_of [(''project_summary'', JStr ''A tool.''), (''how_it_helps_people'', JStr ''It helps.''),
                     (''rating'', JInt 5)] f
             = map_of [(''project_summary'', JStr ''A tool.''), (''how_it_helps_people'', JStr ''It helps.'')] f"
    by (simp add: analysis_field_names_def)
  note t = validate_analysis_fields
  from t [THEN conjunct1, THEN mp, OF 1]
       t [THEN conjunct2, THEN conjunct1, THEN mp, OF 2]
       t [THEN conjunct2, THEN conjunct2, THEN conjunct1, THEN mp, OF 3]
       t [THEN conjunct2, THEN conjunct2, THEN conjunct2, THEN mp, OF 4]
  show ?thesis by (intro conjI)
qed

text \<open>C7, for a key outside the declared set: the object is accepted and the key is
  dropped.\<close>

theorem validate_analysis_extra_key_counterexample:
  "validate_analysis (JObj [(''project_summary'', JStr ''A tool.''),
                            (''how_it_helps_people'', JStr ''It helps.''),
                            (''rating'', JInt 5)])
     = Inr \<lparr>project_summary = ''A tool.'', how_it_helps_people = ''It helps.'', main_features = [],
            how_it_works = [], tech_stack = [], getting_started = [], next_steps = [],
            glossary = []\<rparr> \<and>
   ''rating'' \<notin> set analysis_field_names"
  by (simp add: validate_analysis_def required_field_def list_field_def validate_str_def
      and_then_def analysis_field_names_def)

section \<open>Properties of the request handler\<close>

text \<open>The fallback cannot fail, and what it returns passes validation.\<close>

lemma fallback_total: "\<exists>j. generate_rule_based_summary context = Inr j"
proof -
  obtain d where d: "first_labelled ''Description:'' (context_lines context) = Inr d"
    using first_labelled_total [of "''Description:''" "context_lines context"] by auto
  obtain l where l: "first_labelled ''Languages:'' (context_lines context) = Inr l"
    using first_labelled_total [of "''Languages:''" "context_lines context"] by auto
  show ?thesis
    unfolding generate_rule_based_summary_def Let_def d l and_then_Inr by (rule exI) (rule refl)
qed

lemma fallback_valid:
  "\<exists>a. and_then (generate_rule_based_summary context) validate_analysis = Inr a"
proof -
  obtain d where d: "first_labelled ''Description:'' (context_lines context) = Inr d"
    using first_labelled_total [of "''Description:''" "context_lines context"] by auto
  obtain l where l: "first_labelled ''Languages:'' (context_lines context) = Inr l"
    using first_labelled_total [of "''Languages:''" "context_lines context"] by auto
  show ?thesis
    unfolding generate_rule_based_summary_def Let_def d l and_then_Inr
    by (simp add: validate_analysis_def required_field_def list_field_def validate_list_def
        validate_str_def validate_glossary_item_def json_strings_def and_then_Inr)
qed

lemma http_status_simps:
  "http_status (Inr r) = 200"
  "http_status (Inl (HTTPException st d)) = st"
  "http_status (Inl (Unhandled e)) = 500"
  by (simp_all add: http_status_def)

text \<open>The handler once the context is built.\<close>

lemma analyze_after_context:
  assumes "extract_owner_repo (repo_url p) = Inr (owner, repo)"
    and "fetch_repository_snapshot (http_get sv) (b64_text sv) owner repo = Inr snap"
    and "validate_repo sv snap = Inr info"
    and "build_context info = Inr ctx"
  shows "analyze_repository sv p =
     (case produce_narrative sv p ctx of
        Inl exc \<Rightarrow> Inl (Unhandled exc)
      | Inr (result, raw, ai) \<Rightarrow>
     (case validate_analysis result of
        Inl exc \<Rightarrow> Inl (HTTPException 500 (''Failed to parse analysis: '' @ str_exc sv exc))
      | Inr a \<Rightarrow>
          Inr \<lparr>repository = info, analysis = a, used_ai = ai, raw_response = raw\<rparr>))"
  using assms by (simp add: analyze_repository_def)

lemma produce_after_failure:
  assumes "api_key p = Some key" "key \<noteq> []"
    and "call_ai_agent sv ctx key (or_default (model p) ''gpt-4o-mini'') = Inl e"
    and "generate_rule_based_summary ctx = Inr j"
  shows "produce_narrative sv p ctx = Inr (j, Some (''AI call failed: '' @ str_exc sv e), False)"
  unfolding produce_narrative_def using assms by (simp add: and_then_Inr)

lemma produce_after_answer:
  assumes "api_key p = Some key" "key \<noteq> []"
    and "call_ai_agent sv ctx key (or_default (model p) ''gpt-4o-mini'') = Inr (data, raw)"
  shows "produce_narrative sv p ctx = Inr (data, Some raw, True)"
  unfolding produce_narrative_def using assms by simp

text \<open>
  C2. For a request with a non-empty \<open>api_key\<close> whose URL parses and whose snapshot is
  fetched, validated and rendered to a context:
  (1) when the chat request raises, and (2) when its answer is not parseable as JSON, the
  handler answers with status 200, \<open>used_ai = False\<close>, the validated fallback narrative and a
  \<open>raw_response\<close> that reports the failure;
  (3) when the answer parses but fails narrative validation, the handler raises
  \<open>HTTPException\<close> with status 500: there is no fallback on that path.
\<close>

theorem analyze_ai_failure:
  assumes "extract_owner_repo (repo_url p) = Inr (owner, repo)"
    and "fetch_repository_snapshot (http_get sv) (b64_text sv) owner repo = Inr snap"
    and "validate_repo sv snap = Inr info"
    and "build_context info = Inr ctx"
    and "api_key p = Some key" and "key \<noteq> []"
  shows
    "(\<forall>e. chat sv key (or_default (model p) ''gpt-4o-mini'') SYSTEM_PROMPT (build_user_prompt ctx) = Inl e \<longrightarrow>
        (\<exists>a. and_then (generate_rule_based_summary ctx) validate_analysis = Inr a \<and>
             analyze_repository sv p =
               Inr \<lparr>repository = info, analysis = a, used_ai = False,
                    raw_response = Some (''AI call failed: '' @ str_exc sv e)\<rparr>) \<and>
        http_status (analyze_repository sv p) = 200) \<and>
     (\<forall>content. chat sv key (or_default (model p) ''gpt-4o-mini'') SYSTEM_PROMPT (build_user_prompt ctx)
          = Inr content \<and>
        json_loads sv (or_default content ''{}'') = None \<longrightarrow>
        (\<exists>a. and_then (generate_rule_based_summary ctx) validate_analysis = Inr a \<and>
             analyze_repository sv p =
               Inr \<lparr>repository = info, analysis = a, used_ai = False,
                    raw_response = Some (''AI call failed: '' @ str_exc sv JSONDecodeError)\<rparr>) \<and>
        http_status (analyze_repository sv p) = 200) \<and>
     (\<forall>content data e. chat sv key (or_default (model p) ''gpt-4o-mini'') SYSTEM_PROMPT (build_user_prompt ctx)
          = Inr content \<and>
        json_loads sv (or_default content ''{}'') = Some data \<and> validate_analysis data = Inl e \<longrightarrow>
        analyze_repository sv p =
          Inl (HTTPException 500 (''Failed to parse analysis: '' @ str_exc sv e)) \<and>
        http_status (analyze_repository sv p) = 500)"
proof -
  note after = analyze_after_context [OF assms(1-4)]
  obtain j where j: "generate_rule_based_summary ctx = Inr j"
    using fallback_total [of ctx] by auto
  obtain a where "and_then (generate_rule_based_summary ctx) validate_analysis = Inr a"
    using fallback_valid [of ctx] by auto
  then have a: "and_then (generate_rule_based_summary ctx) validate_analysis = Inr a"
    and va: "validate_analysis j = Inr a"
    unfolding j and_then_Inr by simp_all
  have fail: "analyze_repository sv p =
               Inr \<lparr>repository = info, analysis = a, used_ai = False,
                    raw_response = Some (''AI call failed: '' @ str_exc sv e)\<rparr>"
    if "call_ai_agent sv ctx key (or_default (model p) ''gpt-4o-mini'') = Inl e" for e
    unfolding after produce_after_failure [OF assms(5,6) that j] by (simp add: va)
  have 1: "(\<exists>a. and_then (generate_rule_based_summary ctx) validate_analysis = Inr a \<and>
             analyze_repository sv p =
               Inr \<lparr>repository = info, analysis = a, used_ai = False,
                    raw_response = Some (''AI call failed: '' @ str_exc sv e)\<rparr>) \<and>
        http_status (analyze_repository sv p) = 200"
    if "chat sv key (or_default (model p) ''gpt-4o-mini'') SYSTEM_PROMPT (build_user_prompt ctx) = Inl e" for e
  proof -
    have "call_ai_agent sv ctx key (or_default (model p) ''gpt-4o-mini'') = Inl e"
      unfolding call_ai_agent_def that by (simp add: and_then_Inl)
    from fail [OF this] a show ?thesis by (simp add: http_status_simps)
  qed
  have 2: "(\<exists>a. and_then (generate_rule_based_summary ctx) validate_analysis = Inr a \<and>
             analyze_repository sv p =
               Inr \<lparr>repository = info, analysis = a, used_ai = False,
                    raw_response = Some (''AI call failed: '' @ str_exc sv JSONDecodeError)\<rparr>) \<and>
        http_status (analyze_repository sv p) = 200"
    if "chat sv key (or_default (model p) ''gpt-4o-mini'') SYSTEM_PROMPT (build_user_prompt ctx) = Inr content \<and>
        json_loads sv (or_default content ''{}'') = None" for content
  proof -
    have "call_ai_agent sv ctx key (or_default (model p) ''gpt-4o-mini'') = Inl JSONDecodeError"
      unfolding call_ai_agent_def using that by (simp add: and_then_Inr)
    from fail [OF this] a show ?thesis by (simp add: http_status_simps)
  qed
  have 3: "analyze_repository sv p =
          Inl (HTTPException 500 (''Failed to parse analysis: '' @ str_exc sv e)) \<and>
        http_status (analyze_repository sv p) = 500"
    if "chat sv key (or_default (model p) ''gpt-4o-mini'') SYSTEM_PROMPT (build_user_prompt ctx) = Inr content \<and>
        json_loads sv (or_default content ''{}'') = Some data \<and> validate_analysis data = Inl e"
    for content data e
  proof -
    have "call_ai_agent sv ctx key (or_default (model p) ''gpt-4o-mini'')
            = Inr (data, or_default content ''{}'')"
      unfolding call_ai_agent_def using that by (simp add: and_then_Inr)
    from produce_after_answer [OF assms(5,6) this] that show ?thesis
      unfolding after by (simp add: http_status_simps)
  qed
  from 1 2 3 show ?thesis by blast
qed

lemma example_url: "extract_owner_repo (repo_url example_request) = Inr (''abez123'', ''gitalyzer'')"
  by code_simp

lemma example_fetch:
  "\<exists>snap. fetch_repository_snapshot (http_get (example_services outcome))
            (b64_text (example_services outcome)) ''abez123'' ''gitalyzer'' = Inr snap"
  unfolding fetch_repository_snapshot_def snapshot_dict_def Let_def example_services_def
  by (simp add: resp_json_def and_then_def py_get_def or_empty_get_def readme_of_payload_def
      py_iter_def)

lemma example_context: "\<exists>ctx. build_context example_info = Inr ctx"
  by (rule build_context_no_commits) (simp add: example_info_def)

lemma example_validate_repo: "validate_repo (example_services outcome) snap = Inr example_info"
  by (simp add: example_services_def)

lemma example_key: "api_key example_request = Some ''sk-test''" "''sk-test'' \<noteq> []"
  by (simp_all add: example_request_def)

theorem analyze_ai_failure_witness:
  "http_status (analyze_repository (example_services (Inl (OpenAIError ''timeout''))) example_request) = 200 \<and>
   http_status (analyze_repository (example_services (Inr (Some ''not json''))) example_request) = 200 \<and>
   http_status (analyze_repository (example_services (Inr None)) example_request) = 500"
proof -
  obtain ctx where ctx: "build_context example_info = Inr ctx"
    using example_context by auto
  have 1: "http_status (analyze_repository (example_services (Inl (OpenAIError ''timeout''))) example_request) = 200"
  proof -
    let ?sv = "example_services (Inl (OpenAIError ''timeout''))"
    obtain snap where snap: "fetch_repository_snapshot (http_get ?sv) (b64_text ?sv)
        ''abez123'' ''gitalyzer'' = Inr snap"
      using example_fetch by blast
    have c: "chat ?sv ''sk-test'' (or_default (model example_request) ''gpt-4o-mini'') SYSTEM_PROMPT
        (build_user_prompt ctx) = Inl (OpenAIError ''timeout'')"
      by (simp add: example_services_def)
    from analyze_ai_failure [OF example_url snap example_validate_repo ctx example_key,
        THEN conjunct1, THEN spec, THEN mp, OF c]
    show ?thesis by (rule conjunct2)
  qed
  have 2: "http_status (analyze_repository (example_services (Inr (Some ''not json''))) example_request) = 200"
  proof -
    let ?sv = "example_services (Inr (Some ''not json''))"
    obtain snap where snap: "fetch_repository_snapshot (http_get ?sv) (b64_text ?sv)
        ''abez123'' ''gitalyzer'' = Inr snap"
      using example_fetch by blast
    have c: "chat ?sv ''sk-test'' (or_default (model example_request) ''gpt-4o-mini'') SYSTEM_PROMPT
        (build_user_prompt ctx) = Inr (Some ''not json'') \<and>
        json_loads ?sv (or_default (Some ''not json'') ''{}'') = None"
      by (simp add: example_services_def or_default_def)
    from analyze_ai_failure [OF example_url snap example_validate_repo ctx example_key,
        THEN conjunct2, THEN conjunct1, THEN spec, THEN mp, OF c]
    show ?thesis by (rule conjunct2)
  qed
  have 3: "http_status (analyze_repository (example_services (Inr None)) example_request) = 500"
  proof -
    let ?sv = "example_services (Inr None)"
    obtain snap where snap: "fetch_repository_snapshot (http_get ?sv) (b64_text ?sv)
        ''abez123'' ''gitalyzer'' = Inr snap"
      using example_fetch by blast
    have c: "chat ?sv ''sk-test'' (or_default (model example_request) ''gpt-4o-mini'') SYSTEM_PROMPT
        (build_user_prompt ctx) = Inr None \<and>
        json_loads ?sv (or_default None ''{}'') = Some (JObj []) \<and>
        validate_analysis (JObj []) = Inl ValidationError"
      by (simp add: example_services_def or_default_def validate_analysis_def required_field_def
          and_then_Inl)
    from analyze_ai_failure [OF example_url snap example_validate_repo ctx example_key,
        THEN conjunct2, THEN conjunct2, THEN spec, THEN spec, THEN spec, THEN mp, OF c]
    show ?thesis by (rule conjunct2)
  qed
  from 1 2 3 show ?thesis by (intro conjI)
qed

text \<open>C2, for an answer that is valid JSON of the wrong shape: the model answers \<open>{}\<close>, the
  parser accepts it, validation rejects it, and the request fails with status 500.\<close>

theorem analyze_invalid_shape_counterexample:
  "api_key example_request = Some ''sk-test'' \<and>
   json_loads (example_services (Inr (Some ''{}''))) ''{}'' = Some (JObj []) \<and>
   validate_analysis (JObj []) = Inl ValidationError \<and>
   analyze_repository (example_services (Inr (Some ''{}''))) example_request =
     Inl (HTTPException 500 ''Failed to parse analysis: error'') \<and>
   http_status (analyze_repository (example_services (Inr (Some ''{}''))) example_request) = 500"
proof -
  let ?sv = "example_services (Inr (Some ''{}''))"
  obtain ctx where ctx: "build_context example_info = Inr ctx"
    using example_context by auto
  obtain snap where snap: "fetch_repository_snapshot (http_get ?sv) (b64_text ?sv)
      ''abez123'' ''gitalyzer'' = Inr snap"
    using example_fetch by blast
  have v: "validate_analysis (JObj []) = Inl ValidationError"
    by (simp add: validate_analysis_def required_field_def and_then_Inl)
  have l: "json_loads ?sv ''{}'' = Some (JObj [])"
    by (simp add: example_services_def)
  have "call_ai_agent ?sv ctx ''sk-test'' (or_default (model example_request) ''gpt-4o-mini'')
          = Inr (JObj [], ''{}'')"
    by (simp add: call_ai_agent_def example_services_def or_default_def and_then_Inr)
  from produce_after_answer [OF example_key this]
  have "analyze_repository ?sv example_request =
     Inl (HTTPException 500 (''Failed to parse analysis: '' @ str_exc ?sv ValidationError))"
    unfolding analyze_after_context [OF example_url snap example_validate_repo ctx]
    by (simp add: v)
  moreover have "str_exc ?sv ValidationError = ''error''"
    by (simp add: str_exc_def example_services_def)
  ultimately have a: "analyze_repository ?sv example_request =
     Inl (HTTPException 500 ''Failed to parse analysis: error'')" by simp
  show ?thesis unfolding a using v l example_key(1) by (simp add: http_status_simps)
qed

end
